theory Spec2Isabelle
  imports Main
begin

section \<open>The RKE2 security responder: a shallow embedding\<close>

text \<open>
  The repository holds two revisions of the same one-file Go program:
  \<^verbatim>\<open>src/main.go\<close> and \<^verbatim>\<open>src/unnamed/part_001\<close>. Both declare \<^verbatim>\<open>package main\<close>
  with the functions \<^verbatim>\<open>main\<close>, \<^verbatim>\<open>collectTelemetryData\<close>, \<^verbatim>\<open>isControlPlaneNode\<close>,
  \<^verbatim>\<open>getSELinuxStatus\<close>, \<^verbatim>\<open>detectCNIPlugin\<close>, \<^verbatim>\<open>detectIngressController\<close> and
  \<^verbatim>\<open>sendTelemetryData\<close>. Functions whose bodies differ between the two files take the
  revision as their first argument, one equation per file; \<^verbatim>\<open>contains\<close> and
  \<^verbatim>\<open>hasSubstring\<close> exist in \<^verbatim>\<open>src/main.go\<close> only.
\<close>

datatype revision = MainGo | Part001

subsection \<open>Strings\<close>

text \<open>
  A Go string is a sequence of bytes; \<^typ>\<open>string\<close> is a list of 8-bit characters.
  \<^verbatim>\<open>len\<close> returns a Go \<^verbatim>\<open>int\<close>; string lengths are far below \<open>2^63\<close>, so the
  index arithmetic of the source is done in \<^typ>\<open>int\<close> without wrap-around.
\<close>

definition len :: "string \<Rightarrow> int" where
  "len s = int (length s)"

text \<open>
  The slice expression \<^verbatim>\<open>s[i:j]\<close> panics unless \<open>0 \<le> i \<le> j \<le> len(s)\<close>;
  \<^term>\<open>None\<close> is the panic.
\<close>

definition slice :: "string \<Rightarrow> int \<Rightarrow> int \<Rightarrow> string option" where
  "slice s i j =
     (if 0 \<le> i \<and> i \<le> j \<and> j \<le> len s
      then Some (take (nat (j - i)) (drop (nat i) s))
      else None)"

text \<open>
  \<^verbatim>\<open>hasSubstring\<close> (src/main.go, lines 277-284): the loop
  \<^verbatim>\<open>for i := 0; i <= len(s)-len(substr); i++\<close>, from the index \<open>i\<close> on.
\<close>

function hasSubstring_from :: "string \<Rightarrow> string \<Rightarrow> int \<Rightarrow> bool option" where
  "hasSubstring_from s substr i =
     (if i \<le> len s - len substr
      then (case slice s i (i + len substr) of
              None \<Rightarrow> None
            | Some t \<Rightarrow> if t = substr then Some True
                        else hasSubstring_from s substr (i + 1))
      else Some False)"
  by pat_completeness auto
termination
  by (relation "measure (\<lambda>(s, substr, i). nat (len s - len substr + 1 - i))") auto

declare hasSubstring_from.simps [simp del]

definition hasSubstring :: "string \<Rightarrow> string \<Rightarrow> bool option" where
  "hasSubstring s substr = hasSubstring_from s substr 0"

text \<open>
  \<^verbatim>\<open>contains\<close> (src/main.go, lines 270-275). The operators \<^verbatim>\<open>&&\<close> and \<^verbatim>\<open>||\<close>
  evaluate left to right and stop early, so the expression
  \<^verbatim>\<open>A && (B || C && (P || Q || H))\<close> is the chain of tests below.
\<close>

definition contains :: "string \<Rightarrow> string \<Rightarrow> bool option" where
  "contains s substr =
     (if \<not> len s \<ge> len substr then Some False
      else if s = substr then Some True
      else if \<not> len s > len substr then Some False
      else (case slice s 0 (len substr) of
              None \<Rightarrow> None
            | Some p \<Rightarrow>
                if p = substr then Some True
                else (case slice s (len s - len substr) (len s) of
                        None \<Rightarrow> None
                      | Some q \<Rightarrow>
                          if q = substr then Some True
                          else hasSubstring s substr)))"

text \<open>
  \<^verbatim>\<open>strings.Contains\<close> of the Go standard library, used by src/unnamed/part_001:
  whether \<open>substr\<close> occurs in \<open>s\<close> as a contiguous run of bytes.
\<close>

fun Contains :: "string \<Rightarrow> string \<Rightarrow> bool" where
  "Contains [] substr = (substr = [])"
| "Contains (c # s) substr =
     (take (length substr) (c # s) = substr \<or> Contains s substr)"


text \<open>
  \<^verbatim>\<open>strings.ToLower\<close> of the Go standard library. On a string of ASCII bytes it
  replaces each of \<open>A\<close>..\<open>Z\<close> by its lower-case letter and leaves every other byte.
  Only this case is modelled: the names of Kubernetes objects are ASCII. (On other
  strings the library lowers the letters of Unicode as well, which a map over bytes does
  not describe.)
\<close>

definition toLowerByte :: "char \<Rightarrow> char" where
  "toLowerByte c =
     (case map_of (zip ''ABCDEFGHIJKLMNOPQRSTUVWXYZ'' ''abcdefghijklmnopqrstuvwxyz'') c of
        Some l \<Rightarrow> l
      | None \<Rightarrow> c)"

definition ToLower :: "string \<Rightarrow> string" where
  "ToLower s = map toLowerByte s"

subsection \<open>Constants\<close>

text \<open>A \<^verbatim>\<open>time.Duration\<close> counts nanoseconds. The constant \<^verbatim>\<open>defaultTimeout\<close> (the
  time limit of one HTTP request) has no counterpart here: a request that times out is a
  request that returns a transport error.\<close>

definition Second :: int where
  "Second = 1000000000"

definition defaultTelemetryEndpoint :: string where
  "defaultTelemetryEndpoint = ''https://telemetry.rke2.io/v1/telemetry''"

text \<open>\<^verbatim>\<open>maxRetries\<close> and \<^verbatim>\<open>retryDelay\<close> are constants of src/unnamed/part_001 only.\<close>

definition maxRetries :: int where
  "maxRetries = 3"

definition retryDelay :: int where
  "retryDelay = 2 * Second"

subsection \<open>Data\<close>

text \<open>
  A Go \<^verbatim>\<open>error\<close> value: one returned by a library or by the cluster (\<open>ApiError\<close>),
  \<^verbatim>\<open>fmt.Errorf("<prefix>: %w", err)\<close> (\<open>Errorf\<close>), and
  \<^verbatim>\<open>fmt.Errorf("unexpected status code: %d", code)\<close> (\<open>StatusError\<close>).
\<close>

datatype error = ApiError string | Errorf string error | StatusError int

text \<open>What a call of a function returning \<^verbatim>\<open>(T, error)\<close> does: return a value, return
  an error, or panic.\<close>

datatype 'a result = Ok 'a | Err error | Panic

text \<open>The values stored in \<^verbatim>\<open>map[string]interface{}\<close>: Go \<^verbatim>\<open>int\<close> and \<^verbatim>\<open>string\<close>.\<close>

datatype scalar = IntVal int | StrVal string

record TelemetryData =
  AppVersion :: string
  ExtraTagInfo :: "string \<rightharpoonup> string"
  ExtraFieldInfo :: "string \<rightharpoonup> scalar"

text \<open>
  The parts of \<^verbatim>\<open>corev1.Node\<close> the program reads: \<^verbatim>\<open>node.Labels\<close>,
  \<^verbatim>\<open>node.Status.NodeInfo.OSImage\<close> and \<^verbatim>\<open>node.Status.NodeInfo.KernelVersion\<close>.
\<close>

record Node =
  Labels :: "string \<rightharpoonup> string"
  OSImage :: string
  KernelVersion :: string

subsection \<open>The world outside the program\<close>

text \<open>
  What the process environment, the client libraries, the cluster and the telemetry
  endpoint answer. A listing of DaemonSets or Deployments is the list of the objects' names
  (\<^verbatim>\<open>ds.Name\<close>), the only field read. The DaemonSets of a namespace are listed up to twice
  in one run, and the endpoint is posted to up to three times; these answers depend on how
  many such calls were made before. The results of \<^verbatim>\<open>json.Marshal\<close> and of
  \<^verbatim>\<open>http.NewRequest\<close> (which fails on an endpoint that is not a URL) are left open in the
  same way, so that each error return of the source is a branch here.
\<close>

record World =
  Environ :: "string \<rightharpoonup> string"
  InClusterConfig :: "error option"
  NewForConfig :: "error option"
  ServerVersion :: "error + string"
  NamespacesGet :: "string \<Rightarrow> error + string"
  NodesList :: "error + Node list"
  DaemonSetsList :: "string \<Rightarrow> nat \<Rightarrow> error + string list"
  DeploymentsList :: "string \<Rightarrow> nat \<Rightarrow> error + string list"
  Marshal :: "TelemetryData \<Rightarrow> error + string"
  NewRequest :: "string \<Rightarrow> error option"
  Do :: "string \<Rightarrow> string \<Rightarrow> nat \<Rightarrow> error + int"

text \<open>
  The calls a run makes, in order: the construction of the client, the queries to the
  cluster's API, the sleeps of the retry loop and the HTTP POSTs (endpoint and body).
  Log lines are not recorded.
\<close>

datatype event =
    CallInClusterConfig
  | CallNewForConfig
  | CallServerVersion
  | CallNamespacesGet string
  | CallNodesList
  | CallDaemonSetsList string
  | CallDeploymentsList string
  | Sleep int
  | Post string string

fun isApiCall :: "event \<Rightarrow> bool" where
  "isApiCall CallServerVersion = True"
| "isApiCall (CallNamespacesGet ns) = True"
| "isApiCall CallNodesList = True"
| "isApiCall (CallDaemonSetsList ns) = True"
| "isApiCall (CallDeploymentsList ns) = True"
| "isApiCall e = False"

fun isPost :: "event \<Rightarrow> bool" where
  "isPost (Post endpoint body) = True"
| "isPost e = False"

text \<open>\<^verbatim>\<open>os.Getenv\<close>: the value of the variable, the empty string when it is unset.\<close>

definition Getenv :: "World \<Rightarrow> string \<Rightarrow> string" where
  "Getenv w key = (case Environ w key of None \<Rightarrow> [] | Some v \<Rightarrow> v)"

definition getServerVersion :: "World \<Rightarrow> event list \<Rightarrow> (error + string) \<times> event list" where
  "getServerVersion w tr = (ServerVersion w, tr @ [CallServerVersion])"

definition getNamespace :: "World \<Rightarrow> string \<Rightarrow> event list \<Rightarrow> (error + string) \<times> event list" where
  "getNamespace w ns tr = (NamespacesGet w ns, tr @ [CallNamespacesGet ns])"

definition listNodes :: "World \<Rightarrow> event list \<Rightarrow> (error + Node list) \<times> event list" where
  "listNodes w tr = (NodesList w, tr @ [CallNodesList])"

definition listDaemonSets ::
  "World \<Rightarrow> string \<Rightarrow> event list \<Rightarrow> (error + string list) \<times> event list" where
  "listDaemonSets w ns tr =
     (DaemonSetsList w ns (count_list tr (CallDaemonSetsList ns)), tr @ [CallDaemonSetsList ns])"

definition listDeployments ::
  "World \<Rightarrow> string \<Rightarrow> event list \<Rightarrow> (error + string list) \<times> event list" where
  "listDeployments w ns tr =
     (DeploymentsList w ns (count_list tr (CallDeploymentsList ns)), tr @ [CallDeploymentsList ns])"

definition clientDo ::
  "World \<Rightarrow> string \<Rightarrow> string \<Rightarrow> event list \<Rightarrow> (error + int) \<times> event list" where
  "clientDo w endpoint body tr =
     (Do w endpoint body (length (filter isPost tr)), tr @ [Post endpoint body])"

subsection \<open>Node inspection\<close>

text \<open>\<^verbatim>\<open>isControlPlaneNode\<close>, the same in both files.\<close>

definition isControlPlaneNode :: "Node \<Rightarrow> bool" where
  "isControlPlaneNode node =
     (let hasControlPlaneLabel = (Labels node ''node-role.kubernetes.io/control-plane'' \<noteq> None);
          hasMasterLabel = (Labels node ''node-role.kubernetes.io/master'' \<noteq> None)
      in hasControlPlaneLabel \<or> hasMasterLabel)"

text \<open>\<^verbatim>\<open>getSELinuxStatus\<close>: src/main.go lines 161-174, src/unnamed/part_001 lines 167-180.\<close>

fun getSELinuxStatus :: "revision \<Rightarrow> Node \<Rightarrow> string" where
  "getSELinuxStatus MainGo node =
     (if (case Labels node ''security.alpha.kubernetes.io/selinux'' of
            Some selinux \<Rightarrow> selinux = ''enabled''
          | None \<Rightarrow> False)
      then ''enabled''
      else if KernelVersion node \<noteq> [] then ''unknown''
      else ''disabled'')"
| "getSELinuxStatus Part001 node =
     (case Labels node ''security.alpha.kubernetes.io/selinux'' of
        Some selinux \<Rightarrow> if selinux = ''enabled'' then ''enabled'' else ''disabled''
      | None \<Rightarrow> ''unknown'')"

text \<open>
  The loop over \<^verbatim>\<open>nodes.Items\<close> of \<^verbatim>\<open>collectTelemetryData\<close>, on its four local variables
  \<^verbatim>\<open>serverNodeCount\<close>, \<^verbatim>\<open>agentNodeCount\<close>, \<^verbatim>\<open>osInfo\<close>, \<^verbatim>\<open>selinuxInfo\<close>. The counters
  are Go \<^verbatim>\<open>int\<close>s (64 bits); they never exceed the length of the listing, so they do
  not wrap.
\<close>

fun nodeLoop ::
  "revision \<Rightarrow> Node list \<Rightarrow> int \<times> int \<times> string \<times> string \<Rightarrow> int \<times> int \<times> string \<times> string" where
  "nodeLoop rv [] vars = vars"
| "nodeLoop rv (node # nodes) (serverNodeCount, agentNodeCount, osInfo, selinuxInfo) =
     nodeLoop rv nodes
       (if isControlPlaneNode node then serverNodeCount + 1 else serverNodeCount,
        if isControlPlaneNode node then agentNodeCount else agentNodeCount + 1,
        if osInfo = [] then OSImage node else osInfo,
        if selinuxInfo = [] then getSELinuxStatus rv node else selinuxInfo)"

subsection \<open>Workload detection\<close>

text \<open>How a loop over a listing ends: by a \<^verbatim>\<open>return\<close> inside it, by running off the
  end of the listing, or by a panic.\<close>

datatype scan = Found string | NotFound | ScanPanic

text \<open>The loop of \<^verbatim>\<open>detectCNIPlugin\<close>: src/main.go lines 184-197 (a \<^verbatim>\<open>switch\<close> whose cases
  are tried in order), src/unnamed/part_001 lines 190-207.\<close>

fun scanCNI :: "revision \<Rightarrow> string list \<Rightarrow> scan" where
  "scanCNI rv [] = NotFound"
| "scanCNI MainGo (ds # items) =
     (case contains ds ''canal'' of None \<Rightarrow> ScanPanic | Some c1 \<Rightarrow>
      if c1 then Found ''canal'' else
      case contains ds ''flannel'' of None \<Rightarrow> ScanPanic | Some c2 \<Rightarrow>
      if c2 then Found ''flannel'' else
      case contains ds ''calico'' of None \<Rightarrow> ScanPanic | Some c3 \<Rightarrow>
      if c3 then Found ''calico'' else
      case contains ds ''cilium'' of None \<Rightarrow> ScanPanic | Some c4 \<Rightarrow>
      if c4 then Found ''cilium'' else
      case contains ds ''weave'' of None \<Rightarrow> ScanPanic | Some c5 \<Rightarrow>
      if c5 then Found ''weave'' else
      scanCNI MainGo items)"
| "scanCNI Part001 (ds # items) =
     (let name = ToLower ds in
      if Contains name ''canal'' then Found ''canal''
      else if Contains name ''flannel'' then Found ''flannel''
      else if Contains name ''calico'' then Found ''calico''
      else if Contains name ''cilium'' then Found ''cilium''
      else if Contains name ''weave'' then Found ''weave''
      else scanCNI Part001 items)"

definition detectCNIPlugin ::
  "revision \<Rightarrow> World \<Rightarrow> event list \<Rightarrow> string result \<times> event list" where
  "detectCNIPlugin rv w tr =
     (case listDaemonSets w ''kube-system'' tr of
        (Inl err, tr1) \<Rightarrow> (Err err, tr1)
      | (Inr daemonSets, tr1) \<Rightarrow>
          (case scanCNI rv daemonSets of
             Found plugin \<Rightarrow> (Ok plugin, tr1)
           | NotFound \<Rightarrow> (Ok ''unknown'', tr1)
           | ScanPanic \<Rightarrow> (Panic, tr1)))"

text \<open>The two loops of \<^verbatim>\<open>detectIngressController\<close> have the same body: src/main.go lines
  210-217 and 222-229, src/unnamed/part_001 lines 220-228 and 233-241.\<close>

fun scanIngress :: "revision \<Rightarrow> string list \<Rightarrow> scan" where
  "scanIngress rv [] = NotFound"
| "scanIngress MainGo (deploy # items) =
     (case contains deploy ''nginx-ingress'' of None \<Rightarrow> ScanPanic | Some c1 \<Rightarrow>
      if c1 then Found ''rke2-ingress-nginx'' else
      case contains deploy ''rke2-ingress-nginx'' of None \<Rightarrow> ScanPanic | Some c2 \<Rightarrow>
      if c2 then Found ''rke2-ingress-nginx'' else
      case contains deploy ''traefik'' of None \<Rightarrow> ScanPanic | Some c3 \<Rightarrow>
      if c3 then Found ''traefik'' else
      scanIngress MainGo items)"
| "scanIngress Part001 (deploy # items) =
     (let name = ToLower deploy in
      if Contains name ''nginx-ingress'' \<or> Contains name ''rke2-ingress-nginx''
      then Found ''rke2-ingress-nginx''
      else if Contains name ''traefik'' then Found ''traefik''
      else scanIngress Part001 items)"

definition detectIngressController ::
  "revision \<Rightarrow> World \<Rightarrow> event list \<Rightarrow> string result \<times> event list" where
  "detectIngressController rv w tr =
     (case listDeployments w ''kube-system'' tr of
        (Inl err, tr1) \<Rightarrow> (Err err, tr1)
      | (Inr deployments, tr1) \<Rightarrow>
          (case scanIngress rv deployments of
             Found controller \<Rightarrow> (Ok controller, tr1)
           | ScanPanic \<Rightarrow> (Panic, tr1)
           | NotFound \<Rightarrow>
               (case listDaemonSets w ''kube-system'' tr1 of
                  (Inl err, tr2) \<Rightarrow> (Ok ''none'', tr2)
                | (Inr daemonSets, tr2) \<Rightarrow>
                    (case scanIngress rv daemonSets of
                       Found controller \<Rightarrow> (Ok controller, tr2)
                     | ScanPanic \<Rightarrow> (Panic, tr2)
                     | NotFound \<Rightarrow> (Ok ''none'', tr2)))))"

subsection \<open>Collection\<close>

text \<open>
  \<^verbatim>\<open>collectTelemetryData\<close> (src/main.go lines 79-151, src/unnamed/part_001 lines
  82-154; the two bodies are the same text). It takes the calls made so far and returns
  them extended. After \<^verbatim>\<open>cniPlugin, err := detectCNIPlugin(...)\<close> an error replaces the
  value by \<^verbatim>\<open>"unknown"\<close>; a panic is not caught.
\<close>

definition collectTelemetryData ::
  "revision \<Rightarrow> World \<Rightarrow> event list \<Rightarrow> TelemetryData result \<times> event list" where
  "collectTelemetryData rv w tr =
     (let data = \<lparr>AppVersion = [], ExtraTagInfo = Map.empty, ExtraFieldInfo = Map.empty\<rparr> in
      case getServerVersion w tr of
        (Inl err, tr1) \<Rightarrow> (Err (Errorf ''failed to get server version'' err), tr1)
      | (Inr gitVersion, tr1) \<Rightarrow>
      let data = data\<lparr>AppVersion := gitVersion\<rparr>;
          data = data\<lparr>ExtraTagInfo := (ExtraTagInfo data)(''kubernetesVersion'' \<mapsto> gitVersion)\<rparr>
      in
      case getNamespace w ''kube-system'' tr1 of
        (Inl err, tr2) \<Rightarrow> (Err (Errorf ''failed to get kube-system namespace'' err), tr2)
      | (Inr uid, tr2) \<Rightarrow>
      let data = data\<lparr>ExtraTagInfo := (ExtraTagInfo data)(''clusteruuid'' \<mapsto> uid)\<rparr> in
      case listNodes w tr2 of
        (Inl err, tr3) \<Rightarrow> (Err (Errorf ''failed to list nodes'' err), tr3)
      | (Inr nodes, tr3) \<Rightarrow>
      case nodeLoop rv nodes (0, 0, [], []) of
        (serverNodeCount, agentNodeCount, osInfo, selinuxInfo) \<Rightarrow>
      let data = data\<lparr>ExtraFieldInfo :=
                   (ExtraFieldInfo data)(''serverNodeCount'' \<mapsto> IntVal serverNodeCount)\<rparr>;
          data = data\<lparr>ExtraFieldInfo :=
                   (ExtraFieldInfo data)(''agentNodeCount'' \<mapsto> IntVal agentNodeCount)\<rparr>;
          data = data\<lparr>ExtraFieldInfo := (ExtraFieldInfo data)(''os'' \<mapsto> StrVal osInfo)\<rparr>;
          data = data\<lparr>ExtraFieldInfo :=
                   (ExtraFieldInfo data)(''selinux'' \<mapsto> StrVal selinuxInfo)\<rparr>
      in
      case detectCNIPlugin rv w tr3 of
        (Panic, tr4) \<Rightarrow> (Panic, tr4)
      | (cni, tr4) \<Rightarrow>
      let cniPlugin = (case cni of Ok plugin \<Rightarrow> plugin | _ \<Rightarrow> ''unknown'');
          data = data\<lparr>ExtraFieldInfo :=
                   (ExtraFieldInfo data)(''cni-plugin'' \<mapsto> StrVal cniPlugin)\<rparr>
      in
      case detectIngressController rv w tr4 of
        (Panic, tr5) \<Rightarrow> (Panic, tr5)
      | (ingress, tr5) \<Rightarrow>
      let ingressController = (case ingress of Ok controller \<Rightarrow> controller | _ \<Rightarrow> ''unknown'');
          data = data\<lparr>ExtraFieldInfo :=
                   (ExtraFieldInfo data)(''ingress-controller'' \<mapsto> StrVal ingressController)\<rparr>
      in (Ok data, tr5))"

subsection \<open>Sending\<close>

text \<open>
  The retry loop of \<^verbatim>\<open>sendTelemetryData\<close> in src/unnamed/part_001 (lines 260-294), on
  its variables \<^verbatim>\<open>attempt\<close> and \<^verbatim>\<open>lastErr\<close> (\<^term>\<open>None\<close> is \<^verbatim>\<open>nil\<close>). The product
  \<^verbatim>\<open>time.Duration(attempt-1) * retryDelay\<close> is at most four seconds and does not wrap.
  Closing the response body has no effect on what is returned.
\<close>

function sendLoop ::
  "World \<Rightarrow> string \<Rightarrow> string \<Rightarrow> int \<Rightarrow> error option \<Rightarrow> event list
     \<Rightarrow> error option \<times> event list" where
  "sendLoop w endpoint jsonData attempt lastErr tr =
     (if attempt \<le> maxRetries then
        let tr1 = (if attempt > 1 then tr @ [Sleep ((attempt - 1) * retryDelay)] else tr) in
        case NewRequest w endpoint of
          Some err \<Rightarrow> (Some (Errorf ''failed to create request'' err), tr1)
        | None \<Rightarrow>
            (case clientDo w endpoint jsonData tr1 of
               (Inl err, tr2) \<Rightarrow>
                 sendLoop w endpoint jsonData (attempt + 1)
                   (Some (Errorf ''failed to send request'' err)) tr2
             | (Inr statusCode, tr2) \<Rightarrow>
                 if statusCode < 200 \<or> statusCode \<ge> 300
                 then sendLoop w endpoint jsonData (attempt + 1)
                        (Some (StatusError statusCode)) tr2
                 else (None, tr2))
      else (lastErr, tr))"
  by pat_completeness auto
termination
  by (relation "measure (\<lambda>(w, endpoint, jsonData, attempt, lastErr, tr).
                  nat (maxRetries + 1 - attempt))") auto

declare sendLoop.simps [simp del]

text \<open>\<^verbatim>\<open>sendTelemetryData\<close>: src/main.go lines 236-267 (one request, no loop),
  src/unnamed/part_001 lines 248-295.\<close>

fun sendTelemetryData ::
  "revision \<Rightarrow> World \<Rightarrow> TelemetryData \<Rightarrow> string \<Rightarrow> event list \<Rightarrow> error option \<times> event list" where
  "sendTelemetryData MainGo w data endpoint tr =
     (case Marshal w data of
        Inl err \<Rightarrow> (Some (Errorf ''failed to marshal telemetry data'' err), tr)
      | Inr jsonData \<Rightarrow>
          (case NewRequest w endpoint of
             Some err \<Rightarrow> (Some (Errorf ''failed to create request'' err), tr)
           | None \<Rightarrow>
               (case clientDo w endpoint jsonData tr of
                  (Inl err, tr1) \<Rightarrow> (Some (Errorf ''failed to send request'' err), tr1)
                | (Inr statusCode, tr1) \<Rightarrow>
                    if statusCode < 200 \<or> statusCode \<ge> 300
                    then (Some (StatusError statusCode), tr1)
                    else (None, tr1))))"
| "sendTelemetryData Part001 w data endpoint tr =
     (case Marshal w data of
        Inl err \<Rightarrow> (Some (Errorf ''failed to marshal telemetry data'' err), tr)
      | Inr jsonData \<Rightarrow> sendLoop w endpoint jsonData 1 None tr)"

subsection \<open>The program\<close>

text \<open>
  Where \<^verbatim>\<open>main\<close> ends: the \<^verbatim>\<open>return\<close> of the opt-out, one of the three
  \<^verbatim>\<open>os.Exit(1)\<close>, an uncaught panic (the Go runtime exits with code 2), or the end of the
  function after the send, whose error is logged and dropped.
\<close>

datatype ending =
    OptedOut
  | ConfigError error
  | ClientError error
  | CollectError error
  | Crashed
  | SendFailed error
  | SendOk

text \<open>\<^verbatim>\<open>main\<close> (the same text in both files): the exit code of the process, where it
  ended, and the calls it made.\<close>

definition main :: "revision \<Rightarrow> World \<Rightarrow> int \<times> ending \<times> event list" where
  "main rv w =
     (if Getenv w ''DISABLE_TELEMETRY'' = ''true'' then (0, OptedOut, [])
      else
        case InClusterConfig w of
          Some err \<Rightarrow> (1, ConfigError err, [CallInClusterConfig])
        | None \<Rightarrow>
        case NewForConfig w of
          Some err \<Rightarrow> (1, ClientError err, [CallInClusterConfig, CallNewForConfig])
        | None \<Rightarrow>
        case collectTelemetryData rv w [CallInClusterConfig, CallNewForConfig] of
          (Err err, tr) \<Rightarrow> (1, CollectError err, tr)
        | (Panic, tr) \<Rightarrow> (2, Crashed, tr)
        | (Ok data, tr) \<Rightarrow>
        let endpoint = Getenv w ''TELEMETRY_ENDPOINT'';
            endpoint = (if endpoint = [] then defaultTelemetryEndpoint else endpoint)
        in
        case sendTelemetryData rv w data endpoint tr of
          (Some err, tr') \<Rightarrow> (0, SendFailed err, tr')
        | (None, tr') \<Rightarrow> (0, SendOk, tr'))"

subsection \<open>One delivery attempt\<close>

text \<open>
  The outcome of the \<open>k\<close>-th POST as the senders judge it (src/main.go lines 256-264,
  src/unnamed/part_001 lines 275-287): a transport error and a status code outside
  200..299 are errors, anything else is success (\<^term>\<open>None\<close>).
\<close>

definition attemptError :: "World \<Rightarrow> string \<Rightarrow> string \<Rightarrow> nat \<Rightarrow> error option" where
  "attemptError w endpoint body k =
     (case Do w endpoint body k of
        Inl err \<Rightarrow> Some (Errorf ''failed to send request'' err)
      | Inr statusCode \<Rightarrow>
          if statusCode < 200 \<or> statusCode \<ge> 300 then Some (StatusError statusCode) else None)"

text \<open>The endpoint \<^verbatim>\<open>main\<close> sends to: the variable \<^verbatim>\<open>TELEMETRY_ENDPOINT\<close>, the default
  when it is empty or unset.\<close>

definition endpointOf :: "World \<Rightarrow> string" where
  "endpointOf w =
     (if Getenv w ''TELEMETRY_ENDPOINT'' = [] then defaultTelemetryEndpoint
      else Getenv w ''TELEMETRY_ENDPOINT'')"

subsection \<open>The detectors as the specification words them\<close>

text \<open>
  Written from the specification, to be compared with the loops above: a name matches a
  keyword when some contiguous part of the name equals the keyword up to the case of
  letters; the keyword tables, in order, with the label each keyword stands for; and the
  label of the first keyword in table order that matches the first object, in listing
  order, that any keyword matches.
\<close>

definition spec_matches :: "string \<Rightarrow> string \<Rightarrow> bool" where
  "spec_matches name keyword =
     (\<exists>ps mid ss. name = ps @ mid @ ss \<and> ToLower mid = ToLower keyword)"

definition spec_cniTable :: "(string \<times> string) list" where
  "spec_cniTable =
     [(''canal'', ''canal''), (''flannel'', ''flannel''), (''calico'', ''calico''),
      (''cilium'', ''cilium''), (''weave'', ''weave'')]"

definition spec_ingressTable :: "(string \<times> string) list" where
  "spec_ingressTable =
     [(''nginx-ingress'', ''rke2-ingress-nginx''), (''rke2-ingress-nginx'', ''rke2-ingress-nginx''),
      (''traefik'', ''traefik'')]"

fun spec_firstMatch :: "(string \<times> string) list \<Rightarrow> string list \<Rightarrow> string option" where
  "spec_firstMatch table [] = None"
| "spec_firstMatch table (name # names) =
     (case find (\<lambda>(keyword, label). spec_matches name keyword) table of
        Some (keyword, label) \<Rightarrow> Some label
      | None \<Rightarrow> spec_firstMatch table names)"

subsection \<open>The retry schedule as the specification words it\<close>

text \<open>
  Written from the specification: the calls of the first \<open>m\<close> delivery attempts, where
  before each attempt \<open>k\<close> after the first the sender waits \<open>(k - 1)\<close> times the base
  delay.
\<close>

fun spec_attempts :: "string \<Rightarrow> string \<Rightarrow> nat \<Rightarrow> event list" where
  "spec_attempts endpoint body 0 = []"
| "spec_attempts endpoint body (Suc k) =
     spec_attempts endpoint body k
       @ (if k > 0 then [Sleep (int k * retryDelay)] else [])
       @ [Post endpoint body]"

subsection \<open>Reading a result\<close>

text \<open>The value that a returned record holds under a field key; \<^term>\<open>None\<close> when no
  record was returned or the key is absent.\<close>

definition reportedField :: "TelemetryData result \<Rightarrow> string \<Rightarrow> scalar option" where
  "reportedField res key = (case res of Ok data \<Rightarrow> ExtraFieldInfo data key | _ \<Rightarrow> None)"

subsection \<open>Concrete inputs\<close>

text \<open>A control-plane node and an agent node of a small cluster.\<close>

definition serverNode :: Node where
  "serverNode =
     \<lparr>Labels = [''node-role.kubernetes.io/control-plane'' \<mapsto> ''true'',
                 ''kubernetes.io/hostname'' \<mapsto> ''server-0''],
      OSImage = ''SUSE Linux Enterprise Server 15 SP5'',
      KernelVersion = ''5.14.21''\<rparr>"

definition agentNode :: Node where
  "agentNode =
     \<lparr>Labels = [''kubernetes.io/hostname'' \<mapsto> ''agent-0'',
                 ''security.alpha.kubernetes.io/selinux'' \<mapsto> ''enabled''],
      OSImage = ''Ubuntu 22.04.3 LTS'',
      KernelVersion = ''5.15.0''\<rparr>"

text \<open>
  A healthy cluster of these two nodes, running Canal and the RKE2 ingress controller,
  with no environment variable set and an endpoint that answers 200.
\<close>

definition healthyWorld :: World where
  "healthyWorld =
     \<lparr>Environ = Map.empty,
      InClusterConfig = None,
      NewForConfig = None,
      ServerVersion = Inr ''v1.28.5+rke2r1'',
      NamespacesGet = (\<lambda>ns. Inr ''7f0c1a52''),
      NodesList = Inr [serverNode, agentNode],
      DaemonSetsList = (\<lambda>ns k. Inr [''rke2-canal'']),
      DeploymentsList = (\<lambda>ns k. Inr [''rke2-coredns'', ''rke2-ingress-nginx-controller'']),
      Marshal = (\<lambda>data. Inr ''{}''),
      NewRequest = (\<lambda>endpoint. None),
      Do = (\<lambda>endpoint body k. Inr 200)\<rparr>"

definition healthyData :: TelemetryData where
  "healthyData =
     \<lparr>AppVersion = ''v1.28.5+rke2r1'',
      ExtraTagInfo = [''kubernetesVersion'' \<mapsto> ''v1.28.5+rke2r1'', ''clusteruuid'' \<mapsto> ''7f0c1a52''],
      ExtraFieldInfo =
        [''serverNodeCount'' \<mapsto> IntVal 1,
         ''agentNodeCount'' \<mapsto> IntVal 1,
         ''os'' \<mapsto> StrVal ''SUSE Linux Enterprise Server 15 SP5'',
         ''selinux'' \<mapsto> StrVal ''unknown'',
         ''cni-plugin'' \<mapsto> StrVal ''canal'',
         ''ingress-controller'' \<mapsto> StrVal ''rke2-ingress-nginx'']\<rparr>"

text \<open>A node that carries the SELinux label with a value other than \<^verbatim>\<open>"enabled"\<close>.\<close>

definition labelledNode :: Node where
  "labelledNode =
     \<lparr>Labels = [''kubernetes.io/hostname'' \<mapsto> ''agent-1'',
                 ''security.alpha.kubernetes.io/selinux'' \<mapsto> ''disabled''],
      OSImage = ''Ubuntu 22.04.3 LTS'',
      KernelVersion = ''5.15.0''\<rparr>"

text \<open>A node whose status carries no node information: a node object created ahead of
  its kubelet's first status report, or a virtual node.\<close>

definition freshNode :: Node where
  "freshNode =
     \<lparr>Labels = [''node-role.kubernetes.io/control-plane'' \<mapsto> ''true'',
                 ''kubernetes.io/hostname'' \<mapsto> ''server-1''],
      OSImage = [],
      KernelVersion = []\<rparr>"

text \<open>The healthy cluster with the fresh node listed first, and the same with another
  OS image on the second node.\<close>

definition freshFirstWorld :: World where
  "freshFirstWorld = healthyWorld\<lparr>NodesList := Inr [freshNode, agentNode]\<rparr>"

definition freshFirstWorld' :: World where
  "freshFirstWorld' =
     healthyWorld\<lparr>NodesList := Inr [freshNode, agentNode\<lparr>OSImage := ''Flatcar Container Linux''\<rparr>]\<rparr>"

text \<open>
  A cluster in which no Deployment is an ingress controller and the second listing of the
  DaemonSets (the one of the ingress detector) fails.
\<close>

definition flakyWorld :: World where
  "flakyWorld =
     healthyWorld
       \<lparr>DaemonSetsList :=
          (\<lambda>ns k. if k = 0 then Inr [''rke2-canal'']
                   else Inl (ApiError ''context deadline exceeded'')),
        DeploymentsList := (\<lambda>ns k. Inr [''rke2-coredns''])\<rparr>"

definition flakyData :: TelemetryData where
  "flakyData =
     healthyData\<lparr>ExtraFieldInfo :=
       (ExtraFieldInfo healthyData)(''ingress-controller'' \<mapsto> StrVal ''none'')\<rparr>"

text \<open>A cluster whose workload listings all fail, with no node listed.\<close>

definition degradedWorld :: World where
  "degradedWorld =
     healthyWorld
       \<lparr>NodesList := Inr [],
        DaemonSetsList := (\<lambda>ns k. Inl (ApiError ''forbidden'')),
        DeploymentsList := (\<lambda>ns k. Inl (ApiError ''forbidden''))\<rparr>"

definition degradedData :: TelemetryData where
  "degradedData =
     \<lparr>AppVersion = ''v1.28.5+rke2r1'',
      ExtraTagInfo = [''kubernetesVersion'' \<mapsto> ''v1.28.5+rke2r1'', ''clusteruuid'' \<mapsto> ''7f0c1a52''],
      ExtraFieldInfo =
        [''serverNodeCount'' \<mapsto> IntVal 0,
         ''agentNodeCount'' \<mapsto> IntVal 0,
         ''os'' \<mapsto> StrVal [],
         ''selinux'' \<mapsto> StrVal [],
         ''cni-plugin'' \<mapsto> StrVal ''unknown'',
         ''ingress-controller'' \<mapsto> StrVal ''unknown'']\<rparr>"


text \<open>The healthy cluster with an endpoint that always answers 503, and with one that
  answers 500 twice and then 200.\<close>

definition downWorld :: World where
  "downWorld = healthyWorld\<lparr>Do := (\<lambda>endpoint body k. Inr 503)\<rparr>"

definition recoveringWorld :: World where
  "recoveringWorld = healthyWorld\<lparr>Do := (\<lambda>endpoint body k. if k < 2 then Inr 500 else Inr 200)\<rparr>"

text \<open>The healthy cluster with the endpoint variable set to a string that is not a URL:
  \<^verbatim>\<open>http.NewRequest\<close> fails to parse it.\<close>

definition badEndpointWorld :: World where
  "badEndpointWorld =
     healthyWorld
       \<lparr>Environ := [''TELEMETRY_ENDPOINT'' \<mapsto> ''http://[::1''],
        NewRequest := (\<lambda>endpoint. if endpoint = ''http://[::1''
                                  then Some (ApiError ''missing ] in host'') else None)\<rparr>"

text \<open>The healthy cluster with telemetry disabled, and one where the namespace query
  fails.\<close>

definition optedOutWorld :: World where
  "optedOutWorld = healthyWorld\<lparr>Environ := [''DISABLE_TELEMETRY'' \<mapsto> ''true'']\<rparr>"

definition noNamespaceWorld :: World where
  "noNamespaceWorld = healthyWorld\<lparr>NamespacesGet := (\<lambda>ns. Inl (ApiError ''forbidden''))\<rparr>"

section \<open>The substring helper of src/main.go\<close>

lemma Contains_Nil [simp]: "Contains s []"
  by (cases s) simp_all

lemma Contains_iff: "Contains s substr \<longleftrightarrow> (\<exists>ps ss. s = ps @ substr @ ss)"
proof (induction s)
  case Nil
  then show ?case by auto
next
  case (Cons c s)
  show ?case
  proof
    assume "Contains (c # s) substr"
    then consider "take (length substr) (c # s) = substr" | "Contains s substr"
      by auto
    then show "\<exists>ps ss. c # s = ps @ substr @ ss"
    proof cases
      case 1
      then have "c # s = [] @ substr @ drop (length substr) (c # s)"
        by (metis append_Nil append_take_drop_id)
      then show ?thesis by blast
    next
      case 2
      with Cons.IH obtain ps ss where "s = ps @ substr @ ss" by blast
      then have "c # s = (c # ps) @ substr @ ss" by simp
      then show ?thesis by blast
    qed
  next
    assume "\<exists>ps ss. c # s = ps @ substr @ ss"
    then obtain ps ss where eq: "c # s = ps @ substr @ ss" by blast
    show "Contains (c # s) substr"
    proof (cases ps)
      case Nil
      with eq have "take (length substr) (c # s) = substr" by simp
      then show ?thesis by simp
    next
      case (Cons p ps')
      with eq have "s = ps' @ substr @ ss" by simp
      with Cons.IH have "Contains s substr" by blast
      then show ?thesis by simp
    qed
  qed
qed

lemma occurs_iff:
  "(\<exists>ps ss. s = ps @ substr @ ss) \<longleftrightarrow>
   (\<exists>j. j + length substr \<le> length s \<and> take (length substr) (drop j s) = substr)"
proof
  assume "\<exists>ps ss. s = ps @ substr @ ss"
  then obtain ps ss where "s = ps @ substr @ ss" by blast
  then have "length ps + length substr \<le> length s \<and>
             take (length substr) (drop (length ps) s) = substr"
    by simp
  then show "\<exists>j. j + length substr \<le> length s \<and> take (length substr) (drop j s) = substr"
    by blast
next
  assume "\<exists>j. j + length substr \<le> length s \<and> take (length substr) (drop j s) = substr"
  then obtain j where j: "take (length substr) (drop j s) = substr" by blast
  have "s = take j s @ take (length substr) (drop j s) @ drop (length substr) (drop j s)"
    by (simp only: append_take_drop_id)
  with j have "s = take j s @ substr @ drop (length substr) (drop j s)" by simp
  then show "\<exists>ps ss. s = ps @ substr @ ss" by blast
qed

lemma slice_in_range:
  "0 \<le> i \<Longrightarrow> i + len substr \<le> len s \<Longrightarrow>
   slice s i (i + len substr) = Some (take (length substr) (drop (nat i) s))"
  by (simp add: slice_def len_def)

lemma hasSubstring_from_eq:
  "0 \<le> i \<Longrightarrow>
   hasSubstring_from s substr i =
     Some (\<exists>j. nat i \<le> j \<and> j + length substr \<le> length s \<and>
               take (length substr) (drop j s) = substr)"
proof (induction s substr i rule: hasSubstring_from.induct)
  case (1 s substr i)
  let ?P = "\<lambda>j. j + length substr \<le> length s \<and> take (length substr) (drop j s) = substr"
  show ?case
  proof (cases "i \<le> len s - len substr")
    case False
    then have "\<not> (\<exists>j. nat i \<le> j \<and> ?P j)"
      using "1.prems" by (auto simp: len_def)
    with False show ?thesis
      by (subst hasSubstring_from.simps) simp
  next
    case True
    then have sl: "slice s i (i + len substr) = Some (take (length substr) (drop (nat i) s))"
      using "1.prems" by (simp add: slice_in_range)
    have here: "nat i + length substr \<le> length s"
      using True "1.prems" by (simp add: len_def)
    show ?thesis
    proof (cases "take (length substr) (drop (nat i) s) = substr")
      case hit: True
      then have "\<exists>j. nat i \<le> j \<and> ?P j" using here by blast
      with True sl hit show ?thesis
        by (subst hasSubstring_from.simps) simp
    next
      case miss: False
      have step: "hasSubstring_from s substr i = hasSubstring_from s substr (i + 1)"
        using True sl miss by (subst hasSubstring_from.simps) simp
      have ih: "hasSubstring_from s substr (i + 1) =
                  Some (\<exists>j. nat (i + 1) \<le> j \<and> ?P j)"
        using "1.IH" [OF True sl miss] "1.prems" by simp
      have "(\<exists>j. nat (i + 1) \<le> j \<and> ?P j) \<longleftrightarrow> (\<exists>j. nat i \<le> j \<and> ?P j)"
      proof
        assume "\<exists>j. nat (i + 1) \<le> j \<and> ?P j"
        then obtain j where "nat (i + 1) \<le> j" "?P j" by blast
        then have "nat i \<le> j \<and> ?P j" using "1.prems" by simp
        then show "\<exists>j. nat i \<le> j \<and> ?P j" by blast
      next
        assume "\<exists>j. nat i \<le> j \<and> ?P j"
        then obtain j where j: "nat i \<le> j" "?P j" by blast
        with miss have "j \<noteq> nat i" by auto
        with j have "nat (i + 1) \<le> j \<and> ?P j" using "1.prems" by (simp add: nat_add_distrib)
        then show "\<exists>j. nat (i + 1) \<le> j \<and> ?P j" by blast
      qed
      with step ih show ?thesis by simp
    qed
  qed
qed

lemma hasSubstring_eq: "hasSubstring s substr = Some (Contains s substr)"
  by (simp add: hasSubstring_def hasSubstring_from_eq Contains_iff occurs_iff)

lemma Contains_prefix: "take (length substr) s = substr \<Longrightarrow> Contains s substr"
  by (metis Contains_iff append_Nil append_take_drop_id)

lemma Contains_suffix: "drop (length s - length substr) s = substr \<Longrightarrow> Contains s substr"
  by (metis Contains_iff append_Nil2 append_take_drop_id)

lemma Contains_length: "Contains s substr \<Longrightarrow> length substr \<le> length s"
  by (auto simp: Contains_iff)

lemma Contains_self: "Contains s s"
  by (metis Contains_iff append_Nil append_Nil2)

lemma Contains_same_length:
  assumes "length s = length substr"
  shows "Contains s substr \<longleftrightarrow> s = substr"
proof
  assume "Contains s substr"
  then obtain ps ss where eq: "s = ps @ substr @ ss"
    using Contains_iff by blast
  then have "length s = length ps + length substr + length ss" by simp
  with assms have "ps = [] \<and> ss = []" by simp
  with eq show "s = substr" by simp
next
  assume "s = substr"
  then show "Contains s substr" by (simp add: Contains_self)
qed

lemma contains_eq: "contains s substr = Some (Contains s substr)"
proof -
  consider "length s < length substr" | "length s = length substr" | "length substr < length s"
    by linarith
  then show ?thesis
  proof cases
    case 1
    then have "\<not> Contains s substr" using Contains_length by fastforce
    with 1 show ?thesis by (simp add: contains_def len_def)
  next
    case 2
    then show ?thesis by (simp add: contains_def len_def Contains_same_length)
  next
    case 3
    then have p: "slice s 0 (len substr) = Some (take (length substr) s)"
      by (simp add: slice_def len_def)
    from 3 have q: "slice s (len s - len substr) (len s) =
                      Some (drop (length s - length substr) s)"
      by (simp add: slice_def len_def nat_diff_distrib')
    from 3 have ne: "s \<noteq> substr" by auto
    have unfold: "contains s substr =
        (if take (length substr) s = substr then Some True
         else if drop (length s - length substr) s = substr then Some True
         else Some (Contains s substr))"
      using 3 ne by (simp add: contains_def p q hasSubstring_eq) (simp add: len_def)
    show ?thesis
      unfolding unfold
      using Contains_prefix [of substr s] Contains_suffix [of s substr] by auto
  qed
qed

text \<open>
  Claim C10. For all strings \<open>s\<close> and \<open>substr\<close>, the helper \<^verbatim>\<open>contains\<close> of
  src/main.go returns (it does not panic on a slice out of range), and it returns true
  exactly when \<open>substr\<close> occurs in \<open>s\<close> as a contiguous run of bytes, compared
  byte by byte (so with the case of letters significant): it is the standard
  substring-containment function \<^verbatim>\<open>strings.Contains\<close>.
\<close>

theorem contains_is_substring_containment:
  "contains s substr = Some (\<exists>ps ss. s = ps @ substr @ ss) \<and>
   contains s substr = Some (Contains s substr)"
  using contains_eq [of s substr] Contains_iff [of s substr] by simp

section \<open>Collection\<close>

text \<open>The detectors never panic: every slice of \<^verbatim>\<open>contains\<close> is in range.\<close>

lemma scanCNI_no_panic: "scanCNI rv items \<noteq> ScanPanic"
proof (induction items)
  case Nil
  show ?case by simp
next
  case (Cons ds items)
  then show ?case by (cases rv) (simp_all add: contains_eq Let_def)
qed

lemma scanIngress_no_panic: "scanIngress rv items \<noteq> ScanPanic"
proof (induction items)
  case Nil
  show ?case by simp
next
  case (Cons ds items)
  then show ?case by (cases rv) (simp_all add: contains_eq Let_def)
qed

lemma getSELinuxStatus_nonempty: "getSELinuxStatus rv node \<noteq> []"
  by (cases rv) (simp_all split: option.splits)

lemma nodeLoop_eq:
  "nodeLoop rv nodes (sc, ac, osInfo, se) =
     (sc + int (length (filter isControlPlaneNode nodes)),
      ac + int (length (filter (\<lambda>n. \<not> isControlPlaneNode n) nodes)),
      (if osInfo \<noteq> [] then osInfo
       else case filter (\<lambda>n. OSImage n \<noteq> []) nodes of [] \<Rightarrow> [] | n # ns \<Rightarrow> OSImage n),
      (if se \<noteq> [] then se
       else case nodes of [] \<Rightarrow> [] | n # ns \<Rightarrow> getSELinuxStatus rv n))"
proof (induction nodes arbitrary: sc ac osInfo se)
  case Nil
  show ?case by simp
next
  case (Cons node nodes)
  show ?case
    by (simp add: Cons.IH getSELinuxStatus_nonempty)
qed

lemma detectCNIPlugin_cases:
  "detectCNIPlugin rv w tr =
     ((case DaemonSetsList w ''kube-system'' (count_list tr (CallDaemonSetsList ''kube-system'')) of
         Inl err \<Rightarrow> Err err
       | Inr daemonSets \<Rightarrow>
           (case scanCNI rv daemonSets of Found plugin \<Rightarrow> Ok plugin | _ \<Rightarrow> Ok ''unknown'')),
      tr @ [CallDaemonSetsList ''kube-system''])"
  using scanCNI_no_panic
  by (auto simp: detectCNIPlugin_def listDaemonSets_def split: sum.splits scan.splits)

lemma detectIngressController_cases:
  "detectIngressController rv w tr =
     (case DeploymentsList w ''kube-system'' (count_list tr (CallDeploymentsList ''kube-system'')) of
        Inl err \<Rightarrow> (Err err, tr @ [CallDeploymentsList ''kube-system''])
      | Inr deployments \<Rightarrow>
          (case scanIngress rv deployments of
             Found controller \<Rightarrow> (Ok controller, tr @ [CallDeploymentsList ''kube-system''])
           | _ \<Rightarrow>
               ((case DaemonSetsList w ''kube-system''
                        (count_list tr (CallDaemonSetsList ''kube-system'')) of
                   Inl err \<Rightarrow> Ok ''none''
                 | Inr daemonSets \<Rightarrow>
                     (case scanIngress rv daemonSets of
                        Found controller \<Rightarrow> Ok controller
                      | _ \<Rightarrow> Ok ''none'')),
                tr @ [CallDeploymentsList ''kube-system'', CallDaemonSetsList ''kube-system''])))"
  using scanIngress_no_panic
  by (auto simp: detectIngressController_def listDaemonSets_def listDeployments_def
           split: sum.splits scan.splits)

lemma detectCNIPlugin_no_panic: "fst (detectCNIPlugin rv w tr) \<noteq> Panic"
  by (simp add: detectCNIPlugin_cases split: sum.splits scan.splits)

lemma detectCNIPlugin_trace:
  "snd (detectCNIPlugin rv w tr) = tr @ [CallDaemonSetsList ''kube-system'']"
  by (simp add: detectCNIPlugin_cases)

lemma detectIngressController_no_panic: "fst (detectIngressController rv w tr) \<noteq> Panic"
  by (simp add: detectIngressController_cases split: sum.splits scan.splits)

text \<open>The record that collection assembles once the three fatal queries have succeeded.\<close>

lemma collect_success:
  assumes "ServerVersion w = Inr v"
    and "NamespacesGet w ''kube-system'' = Inr uid"
    and "NodesList w = Inr nodes"
  shows "fst (collectTelemetryData rv w tr) =
    Ok \<lparr>AppVersion = v,
        ExtraTagInfo = [''kubernetesVersion'' \<mapsto> v, ''clusteruuid'' \<mapsto> uid],
        ExtraFieldInfo =
          [''serverNodeCount'' \<mapsto> IntVal (int (length (filter isControlPlaneNode nodes))),
           ''agentNodeCount'' \<mapsto> IntVal (int (length (filter (\<lambda>n. \<not> isControlPlaneNode n) nodes))),
           ''os'' \<mapsto> StrVal (case filter (\<lambda>n. OSImage n \<noteq> []) nodes of [] \<Rightarrow> [] | n # ns \<Rightarrow> OSImage n),
           ''selinux'' \<mapsto> StrVal (case nodes of [] \<Rightarrow> [] | n # ns \<Rightarrow> getSELinuxStatus rv n),
           ''cni-plugin'' \<mapsto> StrVal
              (case fst (detectCNIPlugin rv w
                      (tr @ [CallServerVersion, CallNamespacesGet ''kube-system'', CallNodesList])) of
                 Ok plugin \<Rightarrow> plugin | _ \<Rightarrow> ''unknown''),
           ''ingress-controller'' \<mapsto> StrVal
              (case fst (detectIngressController rv w
                      (tr @ [CallServerVersion, CallNamespacesGet ''kube-system'', CallNodesList,
                             CallDaemonSetsList ''kube-system''])) of
                 Ok controller \<Rightarrow> controller | _ \<Rightarrow> ''unknown'')]\<rparr>"
proof -
  let ?tr3 = "tr @ [CallServerVersion, CallNamespacesGet ''kube-system'', CallNodesList]"
  obtain cni where cni: "detectCNIPlugin rv w ?tr3 = (cni, ?tr3 @ [CallDaemonSetsList ''kube-system''])"
    using detectCNIPlugin_trace [of rv w ?tr3] by (cases "detectCNIPlugin rv w ?tr3") simp
  have cni_np: "cni \<noteq> Panic"
    using detectCNIPlugin_no_panic [of rv w ?tr3] cni by simp
  obtain ing tr5 where ing:
    "detectIngressController rv w (?tr3 @ [CallDaemonSetsList ''kube-system'']) = (ing, tr5)"
    by (cases "detectIngressController rv w (?tr3 @ [CallDaemonSetsList ''kube-system''])")
  have ing_np: "ing \<noteq> Panic"
    using detectIngressController_no_panic [of rv w "?tr3 @ [CallDaemonSetsList ''kube-system'']"] ing
    by simp
  show ?thesis
    using assms cni cni_np ing ing_np
    by (cases cni; cases ing)
       (simp_all add: collectTelemetryData_def getServerVersion_def getNamespace_def
          listNodes_def nodeLoop_eq)
qed

lemma collect_failure:
  "ServerVersion w = Inl e \<Longrightarrow>
     fst (collectTelemetryData rv w tr) = Err (Errorf ''failed to get server version'' e)"
  "ServerVersion w = Inr v \<Longrightarrow> NamespacesGet w ''kube-system'' = Inl e \<Longrightarrow>
     fst (collectTelemetryData rv w tr) = Err (Errorf ''failed to get kube-system namespace'' e)"
  "ServerVersion w = Inr v \<Longrightarrow> NamespacesGet w ''kube-system'' = Inr uid \<Longrightarrow>
     NodesList w = Inl e \<Longrightarrow>
     fst (collectTelemetryData rv w tr) = Err (Errorf ''failed to list nodes'' e)"
  by (simp_all add: collectTelemetryData_def getServerVersion_def getNamespace_def listNodes_def)

lemma collect_Ok_imp:
  assumes "fst (collectTelemetryData rv w tr) = Ok data"
  obtains v uid nodes where "ServerVersion w = Inr v"
    and "NamespacesGet w ''kube-system'' = Inr uid" and "NodesList w = Inr nodes"
proof (cases "ServerVersion w")
  case (Inl e)
  with assms show ?thesis by (simp add: collect_failure)
next
  case v: (Inr v)
  show ?thesis
  proof (cases "NamespacesGet w ''kube-system''")
    case (Inl e)
    with assms v show ?thesis by (simp add: collect_failure)
  next
    case uid: (Inr uid)
    show ?thesis
    proof (cases "NodesList w")
      case (Inl e)
      with assms v uid show ?thesis by (simp add: collect_failure)
    next
      case (Inr nodes)
      with v uid that show ?thesis by blast
    qed
  qed
qed


text \<open>Collection in the healthy cluster, in either revision.\<close>

lemma scanCNI_healthy: "scanCNI rv [''rke2-canal''] = Found ''canal''"
  by (cases rv) (simp_all add: contains_eq ToLower_def toLowerByte_def)

lemma scanIngress_healthy:
  "scanIngress rv [''rke2-coredns'', ''rke2-ingress-nginx-controller''] = Found ''rke2-ingress-nginx''"
  by (cases rv) (simp_all add: contains_eq ToLower_def toLowerByte_def)

lemma collect_healthyWorld: "fst (collectTelemetryData rv healthyWorld tr) = Ok healthyData"
proof -
  have "ServerVersion healthyWorld = Inr ''v1.28.5+rke2r1''"
    and "NamespacesGet healthyWorld ''kube-system'' = Inr ''7f0c1a52''"
    and "NodesList healthyWorld = Inr [serverNode, agentNode]"
    by (simp_all add: healthyWorld_def)
  from collect_success [OF this, of rv tr] show ?thesis
    by (cases rv)
       (simp_all add: detectCNIPlugin_cases detectIngressController_cases scanCNI_healthy
          scanIngress_healthy healthyWorld_def healthyData_def serverNode_def agentNode_def
          isControlPlaneNode_def)
qed

text \<open>
  Claim C1. A node is classified as control-plane exactly when one of the label keys
  \<^verbatim>\<open>node-role.kubernetes.io/control-plane\<close> or \<^verbatim>\<open>node-role.kubernetes.io/master\<close> is
  present in its labels, whatever the value, and as agent otherwise; for every node
  listing, the record that collection returns reports as \<^verbatim>\<open>serverNodeCount\<close> the number
  of control-plane nodes of the listing and as \<^verbatim>\<open>agentNodeCount\<close> the number of the
  others, and the two add up to the length of the listing. This holds in both revisions.
\<close>

theorem node_classification_and_counts:
  assumes "NodesList w = Inr nodes"
    and "fst (collectTelemetryData rv w tr) = Ok data"
  shows "(\<exists>key \<in> {''node-role.kubernetes.io/control-plane'', ''node-role.kubernetes.io/master''}.
            key \<in> dom (Labels node)) = isControlPlaneNode node
       \<and> ExtraFieldInfo data ''serverNodeCount'' =
            Some (IntVal (int (length (filter isControlPlaneNode nodes))))
       \<and> ExtraFieldInfo data ''agentNodeCount'' =
            Some (IntVal (int (length (filter (\<lambda>n. \<not> isControlPlaneNode n) nodes))))
       \<and> int (length (filter isControlPlaneNode nodes))
          + int (length (filter (\<lambda>n. \<not> isControlPlaneNode n) nodes)) = int (length nodes)"
proof -
  from assms(2) obtain v uid nodes' where ok: "ServerVersion w = Inr v"
    "NamespacesGet w ''kube-system'' = Inr uid" "NodesList w = Inr nodes'"
    by (rule collect_Ok_imp)
  with assms(1) have "nodes' = nodes" by simp
  with ok have "NodesList w = Inr nodes" by simp
  from collect_success [OF ok(1) ok(2) this, of rv tr] assms(2)
  have fields: "ExtraFieldInfo data ''serverNodeCount'' =
            Some (IntVal (int (length (filter isControlPlaneNode nodes))))"
    "ExtraFieldInfo data ''agentNodeCount'' =
            Some (IntVal (int (length (filter (\<lambda>n. \<not> isControlPlaneNode n) nodes))))"
    by auto
  have cls: "(\<exists>key \<in> {''node-role.kubernetes.io/control-plane'', ''node-role.kubernetes.io/master''}.
            key \<in> dom (Labels node)) = isControlPlaneNode node"
    by (auto simp: isControlPlaneNode_def)
  have "length (filter isControlPlaneNode nodes)
          + length (filter (\<lambda>n. \<not> isControlPlaneNode n) nodes) = length nodes"
    by (rule sum_length_filter_compl)
  then have total: "int (length (filter isControlPlaneNode nodes))
          + int (length (filter (\<lambda>n. \<not> isControlPlaneNode n) nodes)) = int (length nodes)"
    by linarith
  from cls fields total show ?thesis by simp
qed

theorem node_classification_and_counts_witness:
  "NodesList healthyWorld = Inr [serverNode, agentNode]
   \<and> fst (collectTelemetryData MainGo healthyWorld []) = Ok healthyData
   \<and> isControlPlaneNode serverNode \<and> \<not> isControlPlaneNode agentNode
   \<and> ExtraFieldInfo healthyData ''serverNodeCount'' = Some (IntVal 1)
   \<and> ExtraFieldInfo healthyData ''agentNodeCount'' = Some (IntVal 1)"
proof -
  have h1: "NodesList healthyWorld = Inr [serverNode, agentNode]"
    by (simp add: healthyWorld_def)
  have h2: "fst (collectTelemetryData MainGo healthyWorld []) = Ok healthyData"
    by (rule collect_healthyWorld)
  have cp: "isControlPlaneNode serverNode" "\<not> isControlPlaneNode agentNode"
    by (simp_all add: isControlPlaneNode_def serverNode_def agentNode_def)
  from node_classification_and_counts [OF h1 h2, of serverNode] cp h1 h2
  show ?thesis by simp
qed

lemma collect_degradedWorld: "fst (collectTelemetryData rv degradedWorld tr) = Ok degradedData"
proof -
  have "ServerVersion degradedWorld = Inr ''v1.28.5+rke2r1''"
    and "NamespacesGet degradedWorld ''kube-system'' = Inr ''7f0c1a52''"
    and "NodesList degradedWorld = Inr []"
    by (simp_all add: degradedWorld_def healthyWorld_def)
  from collect_success [OF this, of rv tr] show ?thesis
    by (simp add: detectCNIPlugin_cases detectIngressController_cases
          degradedWorld_def healthyWorld_def degradedData_def)
qed

text \<open>
  Claim C8. Every record that collection returns has exactly the tag keys
  \<^verbatim>\<open>kubernetesVersion\<close> and \<^verbatim>\<open>clusteruuid\<close> and exactly the field keys
  \<^verbatim>\<open>serverNodeCount\<close>, \<^verbatim>\<open>agentNodeCount\<close>, \<^verbatim>\<open>os\<close>, \<^verbatim>\<open>selinux\<close>, \<^verbatim>\<open>cni-plugin\<close>
  and \<^verbatim>\<open>ingress-controller\<close>; the two key sets are disjoint; every key is present
  whatever its value (the witness is a cluster whose detectors both fall back to
  \<^verbatim>\<open>"unknown"\<close>); and the two counts are integers that are not negative. This holds in
  both revisions.
\<close>

theorem record_key_sets:
  assumes "fst (collectTelemetryData rv w tr) = Ok data"
  shows "dom (ExtraTagInfo data) = {''kubernetesVersion'', ''clusteruuid''}
       \<and> dom (ExtraFieldInfo data) =
            {''serverNodeCount'', ''agentNodeCount'', ''os'', ''selinux'', ''cni-plugin'',
             ''ingress-controller''}
       \<and> dom (ExtraTagInfo data) \<inter> dom (ExtraFieldInfo data) = {}
       \<and> (\<exists>servers agents.
             ExtraFieldInfo data ''serverNodeCount'' = Some (IntVal servers) \<and> 0 \<le> servers \<and>
             ExtraFieldInfo data ''agentNodeCount'' = Some (IntVal agents) \<and> 0 \<le> agents)"
proof -
  from assms obtain v uid nodes where ok: "ServerVersion w = Inr v"
    "NamespacesGet w ''kube-system'' = Inr uid" "NodesList w = Inr nodes"
    by (rule collect_Ok_imp)
  note eq = collect_success [OF ok, of rv tr]
  from eq assms have tags: "ExtraTagInfo data = [''kubernetesVersion'' \<mapsto> v, ''clusteruuid'' \<mapsto> uid]"
    by auto
  from eq assms obtain os se cni ing where fields: "ExtraFieldInfo data =
      [''serverNodeCount'' \<mapsto> IntVal (int (length (filter isControlPlaneNode nodes))),
       ''agentNodeCount'' \<mapsto> IntVal (int (length (filter (\<lambda>n. \<not> isControlPlaneNode n) nodes))),
       ''os'' \<mapsto> StrVal os, ''selinux'' \<mapsto> StrVal se, ''cni-plugin'' \<mapsto> StrVal cni,
       ''ingress-controller'' \<mapsto> StrVal ing]"
    by auto
  have t: "dom (ExtraTagInfo data) = {''kubernetesVersion'', ''clusteruuid''}"
    unfolding tags by auto
  have f: "dom (ExtraFieldInfo data) =
            {''serverNodeCount'', ''agentNodeCount'', ''os'', ''selinux'', ''cni-plugin'',
             ''ingress-controller''}"
    unfolding fields by auto
  have d: "dom (ExtraTagInfo data) \<inter> dom (ExtraFieldInfo data) = {}"
    unfolding t f by simp
  have n: "\<exists>servers agents.
             ExtraFieldInfo data ''serverNodeCount'' = Some (IntVal servers) \<and> 0 \<le> servers \<and>
             ExtraFieldInfo data ''agentNodeCount'' = Some (IntVal agents) \<and> 0 \<le> agents"
    unfolding fields by simp
  from t f d n show ?thesis by blast
qed

theorem record_key_sets_witness:
  "fst (collectTelemetryData Part001 degradedWorld []) = Ok degradedData
   \<and> dom (ExtraTagInfo degradedData) = {''kubernetesVersion'', ''clusteruuid''}
   \<and> dom (ExtraFieldInfo degradedData) =
        {''serverNodeCount'', ''agentNodeCount'', ''os'', ''selinux'', ''cni-plugin'',
         ''ingress-controller''}
   \<and> ExtraFieldInfo degradedData ''cni-plugin'' = Some (StrVal ''unknown'')
   \<and> ExtraFieldInfo degradedData ''serverNodeCount'' = Some (IntVal 0)"
proof -
  have h: "fst (collectTelemetryData Part001 degradedWorld []) = Ok degradedData"
    by (rule collect_degradedWorld)
  have v: "ExtraFieldInfo degradedData ''cni-plugin'' = Some (StrVal ''unknown'')"
    "ExtraFieldInfo degradedData ''serverNodeCount'' = Some (IntVal 0)"
    by (simp_all add: degradedData_def)
  from record_key_sets [OF h] h v show ?thesis by simp
qed

lemma scanIngress_coredns: "scanIngress rv [''rke2-coredns''] = NotFound"
  by (cases rv) (simp_all add: contains_eq ToLower_def toLowerByte_def)

lemma collect_flakyWorld: "fst (collectTelemetryData rv flakyWorld []) = Ok flakyData"
proof -
  have "ServerVersion flakyWorld = Inr ''v1.28.5+rke2r1''"
    and "NamespacesGet flakyWorld ''kube-system'' = Inr ''7f0c1a52''"
    and "NodesList flakyWorld = Inr [serverNode, agentNode]"
    by (simp_all add: flakyWorld_def healthyWorld_def)
  from collect_success [OF this, of rv "[]"] show ?thesis
    by (cases rv)
       (simp_all add: detectCNIPlugin_cases detectIngressController_cases scanCNI_healthy
          scanIngress_coredns flakyWorld_def healthyWorld_def flakyData_def healthyData_def
          serverNode_def agentNode_def isControlPlaneNode_def)
qed

text \<open>
  Claim C7, as stated, fails. In the cluster \<^term>\<open>flakyWorld\<close> the three fatal queries
  succeed, no Deployment is an ingress controller, and the DaemonSet listing that the
  ingress detector then makes (the second of the run) returns an error. The detector
  drops this error (\<^verbatim>\<open>if err == nil\<close>, src/main.go line 221, src/unnamed/part_001 line
  232) and returns \<^verbatim>\<open>"none"\<close>: the field \<^verbatim>\<open>ingress-controller\<close> is \<^verbatim>\<open>"none"\<close>, not the
  sentinel \<^verbatim>\<open>"unknown"\<close>.
\<close>

theorem ingress_daemonset_error_counterexample:
  "ServerVersion flakyWorld = Inr ''v1.28.5+rke2r1''
   \<and> NamespacesGet flakyWorld ''kube-system'' = Inr ''7f0c1a52''
   \<and> NodesList flakyWorld = Inr [serverNode, agentNode]
   \<and> DaemonSetsList flakyWorld ''kube-system'' 1 = Inl (ApiError ''context deadline exceeded'')
   \<and> snd (detectIngressController Part001 flakyWorld
             [CallServerVersion, CallNamespacesGet ''kube-system'', CallNodesList,
              CallDaemonSetsList ''kube-system''])
       = [CallServerVersion, CallNamespacesGet ''kube-system'', CallNodesList,
          CallDaemonSetsList ''kube-system'', CallDeploymentsList ''kube-system'',
          CallDaemonSetsList ''kube-system'']
   \<and> fst (collectTelemetryData Part001 flakyWorld []) = Ok flakyData
   \<and> ExtraFieldInfo flakyData ''ingress-controller'' = Some (StrVal ''none'')
   \<and> ExtraFieldInfo flakyData ''ingress-controller'' \<noteq> Some (StrVal ''unknown'')"
proof -
  have w: "ServerVersion flakyWorld = Inr ''v1.28.5+rke2r1''"
    "NamespacesGet flakyWorld ''kube-system'' = Inr ''7f0c1a52''"
    "NodesList flakyWorld = Inr [serverNode, agentNode]"
    "DaemonSetsList flakyWorld ''kube-system'' 1 = Inl (ApiError ''context deadline exceeded'')"
    by (simp_all add: flakyWorld_def healthyWorld_def)
  have t: "snd (detectIngressController Part001 flakyWorld
             [CallServerVersion, CallNamespacesGet ''kube-system'', CallNodesList,
              CallDaemonSetsList ''kube-system''])
       = [CallServerVersion, CallNamespacesGet ''kube-system'', CallNodesList,
          CallDaemonSetsList ''kube-system'', CallDeploymentsList ''kube-system'',
          CallDaemonSetsList ''kube-system'']"
    by (simp add: detectIngressController_cases scanIngress_coredns flakyWorld_def healthyWorld_def)
  have f: "ExtraFieldInfo flakyData ''ingress-controller'' = Some (StrVal ''none'')"
    by (simp add: flakyData_def)
  from w t f collect_flakyWorld [of Part001] show ?thesis by simp
qed

text \<open>
  Claim C7, amended. When the version, namespace and node queries succeed, collection
  returns a record with all its keys, never an error and never a panic, whatever the
  workload listings answer. An error of the CNI detector's DaemonSet listing sets
  \<^verbatim>\<open>cni-plugin\<close> to \<^verbatim>\<open>"unknown"\<close>; an error of the ingress detector's Deployment
  listing sets \<^verbatim>\<open>ingress-controller\<close> to \<^verbatim>\<open>"unknown"\<close>; an error of the ingress
  detector's DaemonSet listing, made when no Deployment matched, is ignored and leaves
  \<^verbatim>\<open>ingress-controller\<close> at \<^verbatim>\<open>"none"\<close>. This holds in both revisions.
\<close>

theorem detection_errors_are_absorbed:
  assumes "ServerVersion w = Inr v"
    and "NamespacesGet w ''kube-system'' = Inr uid"
    and "NodesList w = Inr nodes"
  shows "\<exists>data. fst (collectTelemetryData rv w tr) = Ok data
      \<and> dom (ExtraTagInfo data) = {''kubernetesVersion'', ''clusteruuid''}
      \<and> dom (ExtraFieldInfo data) =
            {''serverNodeCount'', ''agentNodeCount'', ''os'', ''selinux'', ''cni-plugin'',
             ''ingress-controller''}
      \<and> ((\<exists>e. DaemonSetsList w ''kube-system'' (count_list tr (CallDaemonSetsList ''kube-system''))
                 = Inl e)
           \<longrightarrow> ExtraFieldInfo data ''cni-plugin'' = Some (StrVal ''unknown''))
      \<and> ((\<exists>e. DeploymentsList w ''kube-system'' (count_list tr (CallDeploymentsList ''kube-system''))
                 = Inl e)
           \<longrightarrow> ExtraFieldInfo data ''ingress-controller'' = Some (StrVal ''unknown''))
      \<and> ((\<exists>deployments e.
              DeploymentsList w ''kube-system'' (count_list tr (CallDeploymentsList ''kube-system''))
                 = Inr deployments
              \<and> scanIngress rv deployments = NotFound
              \<and> DaemonSetsList w ''kube-system''
                   (Suc (count_list tr (CallDaemonSetsList ''kube-system''))) = Inl e)
           \<longrightarrow> ExtraFieldInfo data ''ingress-controller'' = Some (StrVal ''none''))"
proof -
  let ?data = "\<lparr>AppVersion = v,
        ExtraTagInfo = [''kubernetesVersion'' \<mapsto> v, ''clusteruuid'' \<mapsto> uid],
        ExtraFieldInfo =
          [''serverNodeCount'' \<mapsto> IntVal (int (length (filter isControlPlaneNode nodes))),
           ''agentNodeCount'' \<mapsto> IntVal (int (length (filter (\<lambda>n. \<not> isControlPlaneNode n) nodes))),
           ''os'' \<mapsto> StrVal (case filter (\<lambda>n. OSImage n \<noteq> []) nodes of [] \<Rightarrow> [] | n # ns \<Rightarrow> OSImage n),
           ''selinux'' \<mapsto> StrVal (case nodes of [] \<Rightarrow> [] | n # ns \<Rightarrow> getSELinuxStatus rv n),
           ''cni-plugin'' \<mapsto> StrVal
              (case fst (detectCNIPlugin rv w
                      (tr @ [CallServerVersion, CallNamespacesGet ''kube-system'', CallNodesList])) of
                 Ok plugin \<Rightarrow> plugin | _ \<Rightarrow> ''unknown''),
           ''ingress-controller'' \<mapsto> StrVal
              (case fst (detectIngressController rv w
                      (tr @ [CallServerVersion, CallNamespacesGet ''kube-system'', CallNodesList,
                             CallDaemonSetsList ''kube-system''])) of
                 Ok controller \<Rightarrow> controller | _ \<Rightarrow> ''unknown'')]\<rparr>"
  have ok: "fst (collectTelemetryData rv w tr) = Ok ?data"
    by (rule collect_success [OF assms])
  have t: "dom (ExtraTagInfo ?data) = {''kubernetesVersion'', ''clusteruuid''}"
    by auto
  have f: "dom (ExtraFieldInfo ?data) =
            {''serverNodeCount'', ''agentNodeCount'', ''os'', ''selinux'', ''cni-plugin'',
             ''ingress-controller''}"
    by auto
  have c: "(\<exists>e. DaemonSetsList w ''kube-system'' (count_list tr (CallDaemonSetsList ''kube-system''))
                 = Inl e)
           \<longrightarrow> ExtraFieldInfo ?data ''cni-plugin'' = Some (StrVal ''unknown'')"
    by (auto simp: detectCNIPlugin_cases)
  have i1: "(\<exists>e. DeploymentsList w ''kube-system'' (count_list tr (CallDeploymentsList ''kube-system''))
                 = Inl e)
           \<longrightarrow> ExtraFieldInfo ?data ''ingress-controller'' = Some (StrVal ''unknown'')"
    by (auto simp: detectIngressController_cases)
  have i2: "(\<exists>deployments e.
              DeploymentsList w ''kube-system'' (count_list tr (CallDeploymentsList ''kube-system''))
                 = Inr deployments
              \<and> scanIngress rv deployments = NotFound
              \<and> DaemonSetsList w ''kube-system''
                   (Suc (count_list tr (CallDaemonSetsList ''kube-system''))) = Inl e)
           \<longrightarrow> ExtraFieldInfo ?data ''ingress-controller'' = Some (StrVal ''none'')"
    by (auto simp: detectIngressController_cases)
  from ok t f c i1 i2 show ?thesis by blast
qed

theorem detection_errors_are_absorbed_witness:
  "ServerVersion flakyWorld = Inr ''v1.28.5+rke2r1''
   \<and> NamespacesGet flakyWorld ''kube-system'' = Inr ''7f0c1a52''
   \<and> NodesList flakyWorld = Inr [serverNode, agentNode]
   \<and> DeploymentsList flakyWorld ''kube-system'' 0 = Inr [''rke2-coredns'']
   \<and> scanIngress MainGo [''rke2-coredns''] = NotFound
   \<and> DaemonSetsList flakyWorld ''kube-system'' (Suc 0) = Inl (ApiError ''context deadline exceeded'')
   \<and> (\<exists>data. fst (collectTelemetryData MainGo flakyWorld []) = Ok data
         \<and> ExtraFieldInfo data ''ingress-controller'' = Some (StrVal ''none''))
   \<and> ServerVersion degradedWorld = Inr ''v1.28.5+rke2r1''
   \<and> NamespacesGet degradedWorld ''kube-system'' = Inr ''7f0c1a52''
   \<and> NodesList degradedWorld = Inr []
   \<and> DaemonSetsList degradedWorld ''kube-system'' 0 = Inl (ApiError ''forbidden'')
   \<and> DeploymentsList degradedWorld ''kube-system'' 0 = Inl (ApiError ''forbidden'')
   \<and> (\<exists>data. fst (collectTelemetryData Part001 degradedWorld []) = Ok data
         \<and> ExtraFieldInfo data ''cni-plugin'' = Some (StrVal ''unknown'')
         \<and> ExtraFieldInfo data ''ingress-controller'' = Some (StrVal ''unknown''))"
proof -
  have w: "ServerVersion flakyWorld = Inr ''v1.28.5+rke2r1''"
    "NamespacesGet flakyWorld ''kube-system'' = Inr ''7f0c1a52''"
    "NodesList flakyWorld = Inr [serverNode, agentNode]"
    by (simp_all add: flakyWorld_def healthyWorld_def)
  have l: "DeploymentsList flakyWorld ''kube-system'' 0 = Inr [''rke2-coredns'']"
    "DaemonSetsList flakyWorld ''kube-system'' (Suc 0) = Inl (ApiError ''context deadline exceeded'')"
    by (simp_all add: flakyWorld_def healthyWorld_def)
  have s: "scanIngress MainGo [''rke2-coredns''] = NotFound"
    by (rule scanIngress_coredns)
  from detection_errors_are_absorbed [OF w, of MainGo "[]"] w l s
  have 1: "\<exists>data. fst (collectTelemetryData MainGo flakyWorld []) = Ok data
         \<and> ExtraFieldInfo data ''ingress-controller'' = Some (StrVal ''none'')"
    by auto
  have d: "ServerVersion degradedWorld = Inr ''v1.28.5+rke2r1''"
    "NamespacesGet degradedWorld ''kube-system'' = Inr ''7f0c1a52''"
    "NodesList degradedWorld = Inr []"
    by (simp_all add: degradedWorld_def healthyWorld_def)
  have e: "DaemonSetsList degradedWorld ''kube-system'' 0 = Inl (ApiError ''forbidden'')"
    "DeploymentsList degradedWorld ''kube-system'' 0 = Inl (ApiError ''forbidden'')"
    by (simp_all add: degradedWorld_def healthyWorld_def)
  from detection_errors_are_absorbed [OF d, of Part001 "[]"] e
  have 2: "\<exists>data. fst (collectTelemetryData Part001 degradedWorld []) = Ok data
         \<and> ExtraFieldInfo data ''cni-plugin'' = Some (StrVal ''unknown'')
         \<and> ExtraFieldInfo data ''ingress-controller'' = Some (StrVal ''unknown'')"
    by auto
  from w l s 1 d e 2 show ?thesis by simp
qed

section \<open>Node facts\<close>

text \<open>
  The SELinux status function of src/unnamed/part_001 is the mapping of the
  specification: \<^verbatim>\<open>"enabled"\<close> for the label value \<^verbatim>\<open>"enabled"\<close>, \<^verbatim>\<open>"disabled"\<close> for the
  label with any other value, \<^verbatim>\<open>"unknown"\<close> without the label. The function of src/main.go
  looks at the kernel version instead whenever the label is not \<^verbatim>\<open>"enabled"\<close>.
\<close>

lemma getSELinuxStatus_Part001_mapping:
  "(Labels node ''security.alpha.kubernetes.io/selinux'' = Some ''enabled''
      \<longrightarrow> getSELinuxStatus Part001 node = ''enabled'')
   \<and> (\<forall>val. Labels node ''security.alpha.kubernetes.io/selinux'' = Some val \<and> val \<noteq> ''enabled''
      \<longrightarrow> getSELinuxStatus Part001 node = ''disabled'')
   \<and> (Labels node ''security.alpha.kubernetes.io/selinux'' = None
      \<longrightarrow> getSELinuxStatus Part001 node = ''unknown'')"
  by simp

lemma getSELinuxStatus_MainGo_mapping:
  "getSELinuxStatus MainGo node =
     (if Labels node ''security.alpha.kubernetes.io/selinux'' = Some ''enabled'' then ''enabled''
      else if KernelVersion node \<noteq> [] then ''unknown''
      else ''disabled'')"
  by (simp split: option.splits)

text \<open>
  Claim C2 holds of src/unnamed/part_001 and fails of src/main.go. For a node labelled
  \<^verbatim>\<open>security.alpha.kubernetes.io/selinux=disabled\<close> that reports a kernel version,
  src/main.go returns \<^verbatim>\<open>"unknown"\<close> where the claim says \<^verbatim>\<open>"disabled"\<close>; for a node
  without the label and without a reported kernel version, it returns \<^verbatim>\<open>"disabled"\<close>
  where the claim says \<^verbatim>\<open>"unknown"\<close>.
\<close>

theorem getSELinuxStatus_MainGo_diverges:
  "Labels labelledNode ''security.alpha.kubernetes.io/selinux'' = Some ''disabled''
   \<and> getSELinuxStatus MainGo labelledNode = ''unknown''
   \<and> getSELinuxStatus Part001 labelledNode = ''disabled''
   \<and> Labels freshNode ''security.alpha.kubernetes.io/selinux'' = None
   \<and> getSELinuxStatus MainGo freshNode = ''disabled''
   \<and> getSELinuxStatus Part001 freshNode = ''unknown''"
  by (simp add: labelledNode_def freshNode_def)

text \<open>
  What the record reports for a non-empty listing: \<^verbatim>\<open>selinux\<close> is always the status of
  the first node (the status is never the empty string, so the test
  \<^verbatim>\<open>selinuxInfo == ""\<close> holds at the first node only); \<^verbatim>\<open>os\<close> is the OS image of the
  first node whose image is not empty, which is the first node's when that one reports
  an image.
\<close>

lemma selinux_from_first_node:
  assumes "NodesList w = Inr (node # nodes)"
    and "fst (collectTelemetryData rv w tr) = Ok data"
  shows "ExtraFieldInfo data ''selinux'' = Some (StrVal (getSELinuxStatus rv node))"
proof -
  from assms(2) obtain v uid nodes' where ok: "ServerVersion w = Inr v"
    "NamespacesGet w ''kube-system'' = Inr uid" "NodesList w = Inr nodes'"
    by (rule collect_Ok_imp)
  with assms(1) have "NodesList w = Inr (node # nodes)" by simp
  from collect_success [OF ok(1) ok(2) this, of rv tr] assms(2) show ?thesis by auto
qed

lemma os_from_first_nonempty:
  assumes "NodesList w = Inr nodes"
    and "fst (collectTelemetryData rv w tr) = Ok data"
  shows "ExtraFieldInfo data ''os'' =
           Some (StrVal (case filter (\<lambda>n. OSImage n \<noteq> []) nodes of
                           [] \<Rightarrow> [] | n # ns \<Rightarrow> OSImage n))"
proof -
  from assms(2) obtain v uid nodes' where ok: "ServerVersion w = Inr v"
    "NamespacesGet w ''kube-system'' = Inr uid" "NodesList w = Inr nodes'"
    by (rule collect_Ok_imp)
  with assms(1) have "NodesList w = Inr nodes" by simp
  from collect_success [OF ok(1) ok(2) this, of rv tr] assms(2) show ?thesis by auto
qed

lemma os_from_first_node_when_reported:
  assumes "NodesList w = Inr (node # nodes)"
    and "OSImage node \<noteq> []"
    and "fst (collectTelemetryData rv w tr) = Ok data"
  shows "ExtraFieldInfo data ''os'' = Some (StrVal (OSImage node))"
  using os_from_first_nonempty [OF assms(1) assms(3)] assms(2) by simp

lemma collect_freshFirst:
  "reportedField (fst (collectTelemetryData rv freshFirstWorld [])) ''os''
     = Some (StrVal ''Ubuntu 22.04.3 LTS'')"
  "reportedField (fst (collectTelemetryData rv freshFirstWorld' [])) ''os''
     = Some (StrVal ''Flatcar Container Linux'')"
proof -
  have a: "ServerVersion freshFirstWorld = Inr ''v1.28.5+rke2r1''"
    "NamespacesGet freshFirstWorld ''kube-system'' = Inr ''7f0c1a52''"
    "NodesList freshFirstWorld = Inr [freshNode, agentNode]"
    by (simp_all add: freshFirstWorld_def healthyWorld_def)
  have b: "ServerVersion freshFirstWorld' = Inr ''v1.28.5+rke2r1''"
    "NamespacesGet freshFirstWorld' ''kube-system'' = Inr ''7f0c1a52''"
    "NodesList freshFirstWorld' = Inr [freshNode, agentNode\<lparr>OSImage := ''Flatcar Container Linux''\<rparr>]"
    by (simp_all add: freshFirstWorld'_def healthyWorld_def)
  show "reportedField (fst (collectTelemetryData rv freshFirstWorld [])) ''os''
     = Some (StrVal ''Ubuntu 22.04.3 LTS'')"
    by (simp add: collect_success [OF a] reportedField_def freshNode_def agentNode_def)
  show "reportedField (fst (collectTelemetryData rv freshFirstWorld' [])) ''os''
     = Some (StrVal ''Flatcar Container Linux'')"
    by (simp add: collect_success [OF b] reportedField_def freshNode_def agentNode_def)
qed

text \<open>
  Claim C3 fails for the \<^verbatim>\<open>os\<close> field, in both revisions. The first node of the
  listing has an empty OS image. The test
  \<^verbatim>\<open>osInfo == ""\<close> then holds again at the second node, whose image is reported, and
  changing the image of that later node changes the reported field. The comment on the
  test reads "Collect OS info from first node".
\<close>

theorem os_taken_from_later_node:
  "NodesList freshFirstWorld = Inr [freshNode, agentNode]
   \<and> NodesList freshFirstWorld' = Inr [freshNode, agentNode\<lparr>OSImage := ''Flatcar Container Linux''\<rparr>]
   \<and> OSImage freshNode = []
   \<and> reportedField (fst (collectTelemetryData MainGo freshFirstWorld [])) ''os''
        = Some (StrVal ''Ubuntu 22.04.3 LTS'')
   \<and> reportedField (fst (collectTelemetryData Part001 freshFirstWorld [])) ''os''
        = Some (StrVal ''Ubuntu 22.04.3 LTS'')
   \<and> reportedField (fst (collectTelemetryData MainGo freshFirstWorld' [])) ''os''
        = Some (StrVal ''Flatcar Container Linux'')
   \<and> reportedField (fst (collectTelemetryData Part001 freshFirstWorld' [])) ''os''
        = Some (StrVal ''Flatcar Container Linux'')"
  by (simp add: collect_freshFirst)
     (simp add: freshFirstWorld_def freshFirstWorld'_def healthyWorld_def freshNode_def)

section \<open>Workload detection\<close>

text \<open>
  The detectors of src/unnamed/part_001 are the detectors of the specification:
  matching is substring matching up to the case of letters, the first keyword of the
  table that matches the first matching object gives the label, and without a match the
  CNI detector answers \<^verbatim>\<open>"unknown"\<close> and the ingress detector \<^verbatim>\<open>"none"\<close>. The ingress
  detector scans the Deployments and then the DaemonSets.
\<close>

lemma spec_matches_iff: "spec_matches name keyword \<longleftrightarrow> Contains (ToLower name) (ToLower keyword)"
proof
  assume "spec_matches name keyword"
  then obtain ps mid ss where "name = ps @ mid @ ss" "ToLower mid = ToLower keyword"
    by (auto simp: spec_matches_def)
  then have "ToLower name = ToLower ps @ ToLower keyword @ ToLower ss"
    by (simp add: ToLower_def)
  then show "Contains (ToLower name) (ToLower keyword)"
    using Contains_iff by blast
next
  assume "Contains (ToLower name) (ToLower keyword)"
  then obtain ps' ss' where "map toLowerByte name = ps' @ ToLower keyword @ ss'"
    using Contains_iff ToLower_def by metis
  then have "\<exists>us vs. name = us @ vs \<and> ps' = map toLowerByte us
                  \<and> ToLower keyword @ ss' = map toLowerByte vs"
    by (simp add: map_eq_append_conv)
  then obtain ps rest where 1: "name = ps @ rest" "map toLowerByte rest = ToLower keyword @ ss'"
    by auto
  then have "\<exists>us vs. rest = us @ vs \<and> ToLower keyword = map toLowerByte us
                  \<and> ss' = map toLowerByte vs"
    by (simp add: map_eq_append_conv)
  then obtain mid ss where 2: "rest = mid @ ss" "map toLowerByte mid = ToLower keyword"
    by auto
  from 1 2 have "name = ps @ mid @ ss \<and> ToLower mid = ToLower keyword"
    by (simp add: ToLower_def)
  then show "spec_matches name keyword"
    unfolding spec_matches_def by blast
qed

lemma keywords_lower:
  "ToLower ''canal'' = ''canal''" "ToLower ''flannel'' = ''flannel''"
  "ToLower ''calico'' = ''calico''" "ToLower ''cilium'' = ''cilium''"
  "ToLower ''weave'' = ''weave''" "ToLower ''nginx-ingress'' = ''nginx-ingress''"
  "ToLower ''rke2-ingress-nginx'' = ''rke2-ingress-nginx''" "ToLower ''traefik'' = ''traefik''"
  by (simp_all add: ToLower_def toLowerByte_def)

lemma scanCNI_Part001_spec:
  "scanCNI Part001 names =
     (case spec_firstMatch spec_cniTable names of Some label \<Rightarrow> Found label | None \<Rightarrow> NotFound)"
proof (induction names)
  case Nil
  show ?case by simp
next
  case (Cons name names)
  then show ?case
    by (simp add: spec_cniTable_def spec_matches_iff keywords_lower Let_def)
qed

lemma scanIngress_Part001_spec:
  "scanIngress Part001 names =
     (case spec_firstMatch spec_ingressTable names of Some label \<Rightarrow> Found label | None \<Rightarrow> NotFound)"
proof (induction names)
  case Nil
  show ?case by simp
next
  case (Cons name names)
  then show ?case
    by (simp add: spec_ingressTable_def spec_matches_iff keywords_lower Let_def)
qed

lemma detectCNIPlugin_Part001_spec:
  assumes "DaemonSetsList w ''kube-system'' (count_list tr (CallDaemonSetsList ''kube-system''))
             = Inr daemonSets"
  shows "fst (detectCNIPlugin Part001 w tr) =
           Ok (case spec_firstMatch spec_cniTable daemonSets of
                 Some label \<Rightarrow> label | None \<Rightarrow> ''unknown'')"
  using assms
  by (simp add: detectCNIPlugin_cases scanCNI_Part001_spec split: option.splits)

lemma detectIngressController_Part001_spec:
  assumes "DeploymentsList w ''kube-system'' (count_list tr (CallDeploymentsList ''kube-system''))
             = Inr deployments"
    and "DaemonSetsList w ''kube-system'' (count_list tr (CallDaemonSetsList ''kube-system''))
             = Inr daemonSets"
  shows "fst (detectIngressController Part001 w tr) =
           Ok (case spec_firstMatch spec_ingressTable (deployments @ daemonSets) of
                 Some label \<Rightarrow> label | None \<Rightarrow> ''none'')"
proof -
  have app: "spec_firstMatch table (xs @ ys) =
          (case spec_firstMatch table xs of Some l \<Rightarrow> Some l | None \<Rightarrow> spec_firstMatch table ys)"
    for table xs ys
    by (induction xs) (auto split: option.splits)
  show ?thesis
    using assms
    by (simp add: detectIngressController_cases scanIngress_Part001_spec app split: option.splits)
qed

text \<open>On names without capital letters the two revisions detect the same.\<close>

lemma scan_MainGo_lower_case:
  assumes "\<forall>name \<in> set names. ToLower name = name"
  shows "scanCNI MainGo names = scanCNI Part001 names"
    and "scanIngress MainGo names = scanIngress Part001 names"
  using assms by (induction names) (simp_all add: contains_eq Let_def)



section \<open>Sending\<close>

text \<open>One round of the retry loop, when the request can be built.\<close>

lemma sendLoop_step:
  assumes "NewRequest w endpoint = None" and "attempt \<le> maxRetries"
  shows "sendLoop w endpoint body attempt lastErr tr =
     (let tr1 = (if attempt > 1 then tr @ [Sleep ((attempt - 1) * retryDelay)] else tr) in
      case attemptError w endpoint body (length (filter isPost tr)) of
        None \<Rightarrow> (None, tr1 @ [Post endpoint body])
      | Some e \<Rightarrow> sendLoop w endpoint body (attempt + 1) (Some e) (tr1 @ [Post endpoint body]))"
  using assms
  by (subst sendLoop.simps)
     (auto simp: clientDo_def attemptError_def Let_def split: sum.splits)

lemma sendLoop_done:
  "attempt > maxRetries \<Longrightarrow> sendLoop w endpoint body attempt lastErr tr = (lastErr, tr)"
  by (subst sendLoop.simps) simp

lemma sendLoop_unrolled:
  assumes "NewRequest w endpoint = None"
  shows "sendLoop w endpoint body 1 lastErr tr =
     (let n = length (filter isPost tr); p = Post endpoint body in
      case attemptError w endpoint body n of
        None \<Rightarrow> (None, tr @ [p])
      | Some e1 \<Rightarrow>
          (case attemptError w endpoint body (n + 1) of
             None \<Rightarrow> (None, tr @ [p, Sleep (1 * retryDelay), p])
           | Some e2 \<Rightarrow>
               (case attemptError w endpoint body (n + 2) of
                  None \<Rightarrow> (None, tr @ [p, Sleep (1 * retryDelay), p, Sleep (2 * retryDelay), p])
                | Some e3 \<Rightarrow>
                    (Some e3, tr @ [p, Sleep (1 * retryDelay), p, Sleep (2 * retryDelay), p]))))"
proof -
  have m: "(1::int) \<le> maxRetries" "(2::int) \<le> maxRetries" "(3::int) \<le> maxRetries"
    "(4::int) > maxRetries"
    by (simp_all add: maxRetries_def)
  show ?thesis
    by (simp add: sendLoop_step [OF assms m(1)] sendLoop_step [OF assms m(2)]
          sendLoop_step [OF assms m(3)] sendLoop_done [OF m(4)] Let_def
          split: option.splits)
qed

lemma sendLoop_bad_request:
  assumes "NewRequest w endpoint = Some err"
  shows "sendLoop w endpoint body 1 lastErr tr = (Some (Errorf ''failed to create request'' err), tr)"
  using assms by (subst sendLoop.simps) (simp add: maxRetries_def)

lemma sendMainGo_eq:
  assumes "Marshal w data = Inr body" and "NewRequest w endpoint = None"
  shows "sendTelemetryData MainGo w data endpoint tr =
           (attemptError w endpoint body (length (filter isPost tr)), tr @ [Post endpoint body])"
  using assms by (auto simp: clientDo_def attemptError_def split: sum.splits)

lemma spec_attempts_123:
  "spec_attempts endpoint body (Suc 0) = [Post endpoint body]"
  "spec_attempts endpoint body 2 = [Post endpoint body, Sleep (1 * retryDelay), Post endpoint body]"
  "spec_attempts endpoint body 3 =
     [Post endpoint body, Sleep (1 * retryDelay), Post endpoint body,
      Sleep (2 * retryDelay), Post endpoint body]"
  by (simp_all add: numeral_2_eq_2 numeral_3_eq_3)

text \<open>
  The sender of src/unnamed/part_001, when the record can be serialised and the request
  built: it makes \<open>m\<close> attempts, between one and \<^term>\<open>maxRetries\<close>, on the schedule of the
  specification; every attempt before the last one failed; what it returns is the
  outcome of the last attempt; and it returns an error only after \<^term>\<open>maxRetries\<close>
  attempts.
\<close>

lemma send_Part001_policy:
  assumes "Marshal w data = Inr body" and "NewRequest w endpoint = None"
  shows "\<exists>m. 1 \<le> m \<and> int m \<le> maxRetries
      \<and> snd (sendTelemetryData Part001 w data endpoint tr) = tr @ spec_attempts endpoint body m
      \<and> (\<forall>j < m - 1. attemptError w endpoint body (length (filter isPost tr) + j) \<noteq> None)
      \<and> fst (sendTelemetryData Part001 w data endpoint tr)
          = attemptError w endpoint body (length (filter isPost tr) + (m - 1))
      \<and> (fst (sendTelemetryData Part001 w data endpoint tr) \<noteq> None \<longrightarrow> int m = maxRetries)"
proof -
  let ?n = "length (filter isPost tr)"
  let ?send = "sendTelemetryData Part001 w data endpoint tr"
  let ?P = "\<lambda>m. 1 \<le> m \<and> int m \<le> maxRetries
      \<and> snd ?send = tr @ spec_attempts endpoint body m
      \<and> (\<forall>j < m - 1. attemptError w endpoint body (?n + j) \<noteq> None)
      \<and> fst ?send = attemptError w endpoint body (?n + (m - 1))
      \<and> (fst ?send \<noteq> None \<longrightarrow> int m = maxRetries)"
  note eq = sendLoop_unrolled [OF assms(2), of body None tr]
  show ?thesis
  proof (cases "attemptError w endpoint body ?n")
    case None
    with eq assms(1) have "?P 1"
      by (simp add: maxRetries_def Let_def)
    then show ?thesis by blast
  next
    case e1: (Some e1)
    show ?thesis
    proof (cases "attemptError w endpoint body (?n + 1)")
      case None
      with eq assms(1) e1 have "?P 2"
        by (simp add: maxRetries_def spec_attempts_123 Let_def)
      then show ?thesis by blast
    next
      case e2: (Some e2)
      have before: "\<forall>j < (3::nat) - 1. attemptError w endpoint body (?n + j) \<noteq> None"
      proof (intro allI impI)
        fix j :: nat
        assume "j < 3 - 1"
        then have "j = 0 \<or> j = 1" by auto
        with e1 e2 show "attemptError w endpoint body (?n + j) \<noteq> None" by auto
      qed
      have "?P 3"
      proof (cases "attemptError w endpoint body (?n + 2)")
        case None
        with eq assms(1) e1 e2 before show ?thesis
          by (simp add: maxRetries_def spec_attempts_123 Let_def)
      next
        case (Some e3)
        with eq assms(1) e1 e2 before show ?thesis
          by (simp add: maxRetries_def spec_attempts_123 Let_def)
      qed
      then show ?thesis by blast
    qed
  qed
qed

lemma send_Part001_always_failing:
  assumes "Marshal w data = Inr body" and "NewRequest w endpoint = None"
    and "\<forall>k. attemptError w endpoint body k \<noteq> None"
  shows "snd (sendTelemetryData Part001 w data endpoint tr)
           = tr @ spec_attempts endpoint body (nat maxRetries)
       \<and> length (filter isPost (spec_attempts endpoint body (nat maxRetries))) = nat maxRetries
       \<and> fst (sendTelemetryData Part001 w data endpoint tr)
           = attemptError w endpoint body (length (filter isPost tr) + 2)
       \<and> fst (sendTelemetryData Part001 w data endpoint tr) \<noteq> None"
proof -
  from send_Part001_policy [OF assms(1,2), of tr] obtain m where m:
    "snd (sendTelemetryData Part001 w data endpoint tr) = tr @ spec_attempts endpoint body m"
    "fst (sendTelemetryData Part001 w data endpoint tr)
          = attemptError w endpoint body (length (filter isPost tr) + (m - 1))"
    "fst (sendTelemetryData Part001 w data endpoint tr) \<noteq> None \<longrightarrow> int m = maxRetries"
    by blast
  from m(2) assms(3) have "fst (sendTelemetryData Part001 w data endpoint tr) \<noteq> None"
    by simp
  with m(3) have "m = 3" by (simp add: maxRetries_def)
  with m assms(3) show ?thesis
    by (simp add: maxRetries_def spec_attempts_123 Let_def)
qed

lemma send_at_most_maxRetries:
  "length (filter isPost (snd (sendTelemetryData Part001 w data endpoint tr)))
     \<le> length (filter isPost tr) + nat maxRetries"
proof (cases "Marshal w data")
  case (Inl err)
  then show ?thesis by simp
next
  case (Inr body)
  show ?thesis
  proof (cases "NewRequest w endpoint")
    case None
    from send_Part001_policy [OF Inr None, of tr] obtain m where
      "1 \<le> m" "int m \<le> maxRetries"
      "snd (sendTelemetryData Part001 w data endpoint tr) = tr @ spec_attempts endpoint body m"
      by blast
    moreover have "length (filter isPost (spec_attempts endpoint body k)) = k" for k
      by (induction k) simp_all
    ultimately show ?thesis by simp
  next
    case (Some err)
    with Inr show ?thesis by (simp add: sendLoop_bad_request)
  qed
qed

text \<open>
  Claim C5 holds of src/unnamed/part_001 and fails of src/main.go, whose sender has no
  retry loop. Against an endpoint that always answers 503, src/main.go makes one attempt
  and returns its error; src/unnamed/part_001 makes \<^term>\<open>maxRetries\<close> attempts, sleeping
  two and then four seconds, and returns the last error. Against an endpoint that answers
  500 twice and then 200, src/main.go reports failure after one attempt;
  src/unnamed/part_001 succeeds at the third.
\<close>

theorem send_MainGo_does_not_retry:
  "maxRetries = 3
   \<and> sendTelemetryData MainGo downWorld healthyData defaultTelemetryEndpoint []
       = (Some (StatusError 503), [Post defaultTelemetryEndpoint ''{}''])
   \<and> sendTelemetryData Part001 downWorld healthyData defaultTelemetryEndpoint []
       = (Some (StatusError 503),
          [Post defaultTelemetryEndpoint ''{}'', Sleep (2 * Second),
           Post defaultTelemetryEndpoint ''{}'', Sleep (4 * Second),
           Post defaultTelemetryEndpoint ''{}''])
   \<and> sendTelemetryData MainGo recoveringWorld healthyData defaultTelemetryEndpoint []
       = (Some (StatusError 500), [Post defaultTelemetryEndpoint ''{}''])
   \<and> sendTelemetryData Part001 recoveringWorld healthyData defaultTelemetryEndpoint []
       = (None,
          [Post defaultTelemetryEndpoint ''{}'', Sleep (2 * Second),
           Post defaultTelemetryEndpoint ''{}'', Sleep (4 * Second),
           Post defaultTelemetryEndpoint ''{}''])"
proof -
  have d: "Marshal downWorld healthyData = Inr ''{}''"
    "NewRequest downWorld defaultTelemetryEndpoint = None"
    "Do downWorld = (\<lambda>endpoint body k. Inr 503)"
    by (simp_all add: downWorld_def healthyWorld_def)
  have r: "Marshal recoveringWorld healthyData = Inr ''{}''"
    "NewRequest recoveringWorld defaultTelemetryEndpoint = None"
    "Do recoveringWorld = (\<lambda>endpoint body k. if k < 2 then Inr 500 else Inr 200)"
    by (simp_all add: recoveringWorld_def healthyWorld_def)
  show ?thesis
    by (simp add: sendMainGo_eq [OF d(1,2)] sendMainGo_eq [OF r(1,2)]
          sendLoop_unrolled [OF d(2)] sendLoop_unrolled [OF r(2)] d r
          attemptError_def retryDelay_def maxRetries_def clientDo_def Let_def)
qed

section \<open>The program\<close>

text \<open>Collection returns a record or an error, by the three fatal queries alone, and
  its first call is the version query.\<close>

lemma collect_no_panic: "fst (collectTelemetryData rv w tr) \<noteq> Panic"
proof (cases "ServerVersion w")
  case (Inl e)
  then show ?thesis by (simp add: collect_failure)
next
  case v: (Inr v)
  show ?thesis
  proof (cases "NamespacesGet w ''kube-system''")
    case (Inl e)
    with v show ?thesis by (simp add: collect_failure)
  next
    case uid: (Inr uid)
    show ?thesis
    proof (cases "NodesList w")
      case (Inl e)
      with v uid show ?thesis by (simp add: collect_failure)
    next
      case (Inr nodes)
      with v uid show ?thesis by (simp add: collect_success)
    qed
  qed
qed

lemma collect_Err_imp:
  assumes "fst (collectTelemetryData rv w tr) = Err err"
  shows "isl (ServerVersion w) \<or> isl (NamespacesGet w ''kube-system'') \<or> isl (NodesList w)"
proof (rule ccontr)
  assume "\<not> ?thesis"
  then obtain v uid nodes where "ServerVersion w = Inr v"
    "NamespacesGet w ''kube-system'' = Inr uid" "NodesList w = Inr nodes"
    by (cases "ServerVersion w"; cases "NamespacesGet w ''kube-system''"; cases "NodesList w") auto
  from collect_success [OF this, of rv tr] assms show False by simp
qed

lemma collect_Ok_iff:
  "(\<exists>data. fst (collectTelemetryData rv w tr) = Ok data) \<longleftrightarrow>
     \<not> isl (ServerVersion w) \<and> \<not> isl (NamespacesGet w ''kube-system'') \<and> \<not> isl (NodesList w)"
proof
  assume "\<exists>data. fst (collectTelemetryData rv w tr) = Ok data"
  then obtain data where "fst (collectTelemetryData rv w tr) = Ok data" by blast
  then show "\<not> isl (ServerVersion w) \<and> \<not> isl (NamespacesGet w ''kube-system'') \<and> \<not> isl (NodesList w)"
    by (rule collect_Ok_imp) simp
next
  assume a: "\<not> isl (ServerVersion w) \<and> \<not> isl (NamespacesGet w ''kube-system'') \<and> \<not> isl (NodesList w)"
  then obtain v uid nodes where "ServerVersion w = Inr v"
    "NamespacesGet w ''kube-system'' = Inr uid" "NodesList w = Inr nodes"
    by (cases "ServerVersion w"; cases "NamespacesGet w ''kube-system''"; cases "NodesList w") auto
  from collect_success [OF this, of rv tr]
  show "\<exists>data. fst (collectTelemetryData rv w tr) = Ok data" by blast
qed

lemma detectIngressController_trace:
  "\<exists>evs. snd (detectIngressController rv w tr) = tr @ evs"
  by (simp add: detectIngressController_cases split: sum.splits scan.splits)

lemma collect_trace: "\<exists>evs. snd (collectTelemetryData rv w tr) = tr @ CallServerVersion # evs"
proof (cases "ServerVersion w")
  case (Inl e)
  then show ?thesis
    by (simp add: collectTelemetryData_def getServerVersion_def)
next
  case v: (Inr v)
  show ?thesis
  proof (cases "NamespacesGet w ''kube-system''")
    case (Inl e)
    with v show ?thesis
      by (simp add: collectTelemetryData_def getServerVersion_def getNamespace_def)
  next
    case uid: (Inr uid)
    show ?thesis
    proof (cases "NodesList w")
      case (Inl e)
      with v uid show ?thesis
        by (simp add: collectTelemetryData_def getServerVersion_def getNamespace_def listNodes_def)
    next
      case nodes: (Inr nodes)
      let ?tr3 = "tr @ [CallServerVersion, CallNamespacesGet ''kube-system'', CallNodesList]"
      let ?tr4 = "?tr3 @ [CallDaemonSetsList ''kube-system'']"
      obtain cni where cni: "detectCNIPlugin rv w ?tr3 = (cni, ?tr4)"
        using detectCNIPlugin_trace [of rv w ?tr3] by (cases "detectCNIPlugin rv w ?tr3") simp
      have cni_np: "cni \<noteq> Panic"
        using detectCNIPlugin_no_panic [of rv w ?tr3] cni by simp
      obtain ing evs where ing: "detectIngressController rv w ?tr4 = (ing, ?tr4 @ evs)"
        using detectIngressController_trace [of rv w ?tr4]
        by (cases "detectIngressController rv w ?tr4") auto
      have ing_np: "ing \<noteq> Panic"
        using detectIngressController_no_panic [of rv w ?tr4] ing by simp
      obtain sc ac os se where loop: "nodeLoop rv nodes (0, 0, [], []) = (sc, ac, os, se)"
        by (cases "nodeLoop rv nodes (0, 0, [], [])")
      have "snd (collectTelemetryData rv w tr) = ?tr4 @ evs"
        using v uid nodes cni cni_np ing ing_np loop
        by (cases cni; cases ing)
           (simp_all add: collectTelemetryData_def getServerVersion_def getNamespace_def
              listNodes_def)
      then show ?thesis by simp
    qed
  qed
qed

text \<open>The four ways \<^verbatim>\<open>main\<close> runs once telemetry is not disabled.\<close>

lemma main_optout:
  "Getenv w ''DISABLE_TELEMETRY'' = ''true'' \<Longrightarrow> main rv w = (0, OptedOut, [])"
  by (simp add: main_def)

lemma main_config_error:
  "Getenv w ''DISABLE_TELEMETRY'' \<noteq> ''true'' \<Longrightarrow> InClusterConfig w = Some err \<Longrightarrow>
   main rv w = (1, ConfigError err, [CallInClusterConfig])"
  by (simp add: main_def)

lemma main_client_error:
  "Getenv w ''DISABLE_TELEMETRY'' \<noteq> ''true'' \<Longrightarrow> InClusterConfig w = None \<Longrightarrow>
   NewForConfig w = Some err \<Longrightarrow>
   main rv w = (1, ClientError err, [CallInClusterConfig, CallNewForConfig])"
  by (simp add: main_def)

lemma main_collect_error:
  "Getenv w ''DISABLE_TELEMETRY'' \<noteq> ''true'' \<Longrightarrow> InClusterConfig w = None \<Longrightarrow>
   NewForConfig w = None \<Longrightarrow>
   collectTelemetryData rv w [CallInClusterConfig, CallNewForConfig] = (Err err, tr) \<Longrightarrow>
   main rv w = (1, CollectError err, tr)"
  by (simp add: main_def)

lemma main_send:
  "Getenv w ''DISABLE_TELEMETRY'' \<noteq> ''true'' \<Longrightarrow> InClusterConfig w = None \<Longrightarrow>
   NewForConfig w = None \<Longrightarrow>
   collectTelemetryData rv w [CallInClusterConfig, CallNewForConfig] = (Ok data, tr) \<Longrightarrow>
   main rv w =
     (0,
      (case fst (sendTelemetryData rv w data (endpointOf w) tr) of
         None \<Rightarrow> SendOk | Some err \<Rightarrow> SendFailed err),
      snd (sendTelemetryData rv w data (endpointOf w) tr))"
  by (cases "sendTelemetryData rv w data (endpointOf w) tr")
     (simp add: main_def endpointOf_def Let_def split: option.splits)

lemma Getenv_true: "Getenv w key = ''true'' \<longleftrightarrow> Environ w key = Some ''true''"
  by (auto simp: Getenv_def split: option.splits)

text \<open>Every run ends in one of the endings, and never by a panic.\<close>

lemma main_cases:
  obtains
    (optout) "Getenv w ''DISABLE_TELEMETRY'' = ''true''" "main rv w = (0, OptedOut, [])"
  | (config) err where "Getenv w ''DISABLE_TELEMETRY'' \<noteq> ''true''" "InClusterConfig w = Some err"
      "main rv w = (1, ConfigError err, [CallInClusterConfig])"
  | (client) err where "Getenv w ''DISABLE_TELEMETRY'' \<noteq> ''true''" "InClusterConfig w = None"
      "NewForConfig w = Some err"
      "main rv w = (1, ClientError err, [CallInClusterConfig, CallNewForConfig])"
  | (collect) err tr where "Getenv w ''DISABLE_TELEMETRY'' \<noteq> ''true''" "InClusterConfig w = None"
      "NewForConfig w = None"
      "isl (ServerVersion w) \<or> isl (NamespacesGet w ''kube-system'') \<or> isl (NodesList w)"
      "collectTelemetryData rv w [CallInClusterConfig, CallNewForConfig] = (Err err, tr)"
      "main rv w = (1, CollectError err, tr)"
  | (send) data tr where "Getenv w ''DISABLE_TELEMETRY'' \<noteq> ''true''" "InClusterConfig w = None"
      "NewForConfig w = None"
      "\<not> isl (ServerVersion w)" "\<not> isl (NamespacesGet w ''kube-system'')" "\<not> isl (NodesList w)"
      "collectTelemetryData rv w [CallInClusterConfig, CallNewForConfig] = (Ok data, tr)"
      "main rv w =
         (0,
          (case fst (sendTelemetryData rv w data (endpointOf w) tr) of
             None \<Rightarrow> SendOk | Some err \<Rightarrow> SendFailed err),
          snd (sendTelemetryData rv w data (endpointOf w) tr))"
proof (cases "Getenv w ''DISABLE_TELEMETRY'' = ''true''")
  case True
  then show ?thesis using optout main_optout by blast
next
  case off: False
  show ?thesis
  proof (cases "InClusterConfig w")
    case (Some err)
    with off show ?thesis using config main_config_error by blast
  next
    case cfg: None
    show ?thesis
    proof (cases "NewForConfig w")
      case (Some err)
      with off cfg show ?thesis using client main_client_error by blast
    next
      case cl: None
      obtain res tr where c:
        "collectTelemetryData rv w [CallInClusterConfig, CallNewForConfig] = (res, tr)"
        by (cases "collectTelemetryData rv w [CallInClusterConfig, CallNewForConfig]")
      show ?thesis
      proof (cases res)
        case (Ok data)
        with c have "\<exists>data. fst (collectTelemetryData rv w [CallInClusterConfig, CallNewForConfig]) = Ok data"
          by simp
        then have "\<not> isl (ServerVersion w)" "\<not> isl (NamespacesGet w ''kube-system'')"
          "\<not> isl (NodesList w)"
          by (simp_all add: collect_Ok_iff)
        with off cfg cl c Ok show ?thesis using send main_send by blast
      next
        case (Err err)
        with c have "fst (collectTelemetryData rv w [CallInClusterConfig, CallNewForConfig]) = Err err"
          by simp
        then have "isl (ServerVersion w) \<or> isl (NamespacesGet w ''kube-system'') \<or> isl (NodesList w)"
          by (rule collect_Err_imp)
        with off cfg cl c Err show ?thesis using collect main_collect_error by blast
      next
        case Panic
        with c collect_no_panic [of rv w "[CallInClusterConfig, CallNewForConfig]"]
        show ?thesis by simp
      qed
    qed
  qed
qed

text \<open>The calls of collection in the healthy cluster.\<close>

lemma collect_healthyWorld_run:
  "collectTelemetryData Part001 healthyWorld [CallInClusterConfig, CallNewForConfig] =
     (Ok healthyData,
      [CallInClusterConfig, CallNewForConfig, CallServerVersion,
       CallNamespacesGet ''kube-system'', CallNodesList, CallDaemonSetsList ''kube-system'',
       CallDeploymentsList ''kube-system''])"
proof -
  have f: "fst (collectTelemetryData Part001 healthyWorld [CallInClusterConfig, CallNewForConfig])
             = Ok healthyData"
    by (rule collect_healthyWorld)
  have l: "DaemonSetsList healthyWorld = (\<lambda>ns k. Inr [''rke2-canal''])"
    "DeploymentsList healthyWorld =
       (\<lambda>ns k. Inr [''rke2-coredns'', ''rke2-ingress-nginx-controller''])"
    "ServerVersion healthyWorld = Inr ''v1.28.5+rke2r1''"
    "NamespacesGet healthyWorld = (\<lambda>ns. Inr ''7f0c1a52'')"
    "NodesList healthyWorld = Inr [serverNode, agentNode]"
    by (simp_all add: healthyWorld_def)
  obtain sc ac os se where loop:
    "nodeLoop Part001 [serverNode, agentNode] (0, 0, [], []) = (sc, ac, os, se)"
    by (cases "nodeLoop Part001 [serverNode, agentNode] (0, 0, [], [])")
  have s: "snd (collectTelemetryData Part001 healthyWorld [CallInClusterConfig, CallNewForConfig])
             = [CallInClusterConfig, CallNewForConfig, CallServerVersion,
       CallNamespacesGet ''kube-system'', CallNodesList, CallDaemonSetsList ''kube-system'',
       CallDeploymentsList ''kube-system'']"
    using loop
    by (simp add: collectTelemetryData_def getServerVersion_def getNamespace_def listNodes_def
          detectCNIPlugin_cases detectIngressController_cases scanCNI_healthy scanIngress_healthy l
          del: nodeLoop.simps scanCNI.simps scanIngress.simps)
  from f s show ?thesis by (simp add: prod_eq_iff)
qed

text \<open>Runs of the program in the healthy cluster and with a malformed endpoint.\<close>

lemma main_healthyWorld:
  "fst (main rv healthyWorld) = 0" "fst (snd (main rv healthyWorld)) = SendOk"
proof -
  have g: "Getenv healthyWorld ''DISABLE_TELEMETRY'' \<noteq> ''true''"
    "InClusterConfig healthyWorld = None" "NewForConfig healthyWorld = None"
    by (simp_all add: Getenv_def healthyWorld_def)
  obtain tr where c:
    "collectTelemetryData rv healthyWorld [CallInClusterConfig, CallNewForConfig] = (Ok healthyData, tr)"
    using collect_healthyWorld [of rv "[CallInClusterConfig, CallNewForConfig]"]
    by (cases "collectTelemetryData rv healthyWorld [CallInClusterConfig, CallNewForConfig]") simp
  have e: "endpointOf healthyWorld = defaultTelemetryEndpoint"
    by (simp add: endpointOf_def Getenv_def healthyWorld_def)
  have m: "Marshal healthyWorld healthyData = Inr ''{}''"
    "NewRequest healthyWorld defaultTelemetryEndpoint = None"
    "Do healthyWorld = (\<lambda>endpoint body k. Inr 200)"
    by (simp_all add: healthyWorld_def)
  have s: "fst (sendTelemetryData rv healthyWorld healthyData defaultTelemetryEndpoint tr) = None"
    by (cases rv)
       (simp_all add: sendLoop_unrolled [OF m(2)] m attemptError_def clientDo_def Let_def)
  from main_send [OF g c] e s show "fst (main rv healthyWorld) = 0"
    "fst (snd (main rv healthyWorld)) = SendOk"
    by simp_all
qed

lemma main_badEndpointWorld:
  "main rv badEndpointWorld =
     (0, SendFailed (Errorf ''failed to create request'' (ApiError ''missing ] in host'')),
      snd (collectTelemetryData rv badEndpointWorld [CallInClusterConfig, CallNewForConfig]))"
proof -
  have g: "Getenv badEndpointWorld ''DISABLE_TELEMETRY'' \<noteq> ''true''"
    "InClusterConfig badEndpointWorld = None" "NewForConfig badEndpointWorld = None"
    by (simp_all add: Getenv_def badEndpointWorld_def healthyWorld_def)
  obtain data tr where c:
    "collectTelemetryData rv badEndpointWorld [CallInClusterConfig, CallNewForConfig] = (Ok data, tr)"
    using collect_Ok_iff [of rv badEndpointWorld "[CallInClusterConfig, CallNewForConfig]"]
    by (cases "collectTelemetryData rv badEndpointWorld [CallInClusterConfig, CallNewForConfig]")
       (auto simp: badEndpointWorld_def healthyWorld_def)
  have e: "endpointOf badEndpointWorld = ''http://[::1''"
    by (simp add: endpointOf_def Getenv_def badEndpointWorld_def healthyWorld_def)
  have m: "Marshal badEndpointWorld data = Inr ''{}''"
    "NewRequest badEndpointWorld ''http://[::1'' = Some (ApiError ''missing ] in host'')"
    by (simp_all add: badEndpointWorld_def healthyWorld_def)
  have s: "sendTelemetryData rv badEndpointWorld data ''http://[::1'' tr
             = (Some (Errorf ''failed to create request'' (ApiError ''missing ] in host'')), tr)"
    by (cases rv) (simp_all add: m sendLoop_bad_request)
  from main_send [OF g c] e s c show ?thesis by simp
qed

text \<open>Collection makes no HTTP request.\<close>

lemma collect_makes_no_post:
  "filter isPost (snd (collectTelemetryData rv w tr)) = filter isPost tr"
proof -
  have d: "filter isPost (snd (detectIngressController rv w t)) = filter isPost t" for t
    by (simp add: detectIngressController_cases split: sum.splits scan.splits)
  show ?thesis
  proof (cases "ServerVersion w")
    case (Inl e)
    then show ?thesis by (simp add: collectTelemetryData_def getServerVersion_def)
  next
    case v: (Inr v)
    show ?thesis
    proof (cases "NamespacesGet w ''kube-system''")
      case (Inl e)
      with v show ?thesis
        by (simp add: collectTelemetryData_def getServerVersion_def getNamespace_def)
    next
      case uid: (Inr uid)
      show ?thesis
      proof (cases "NodesList w")
        case (Inl e)
        with v uid show ?thesis
          by (simp add: collectTelemetryData_def getServerVersion_def getNamespace_def
                listNodes_def)
      next
        case nodes: (Inr nodes)
        let ?tr3 = "tr @ [CallServerVersion, CallNamespacesGet ''kube-system'', CallNodesList]"
        let ?tr4 = "?tr3 @ [CallDaemonSetsList ''kube-system'']"
        obtain cni where cni: "detectCNIPlugin rv w ?tr3 = (cni, ?tr4)"
          using detectCNIPlugin_trace [of rv w ?tr3] by (cases "detectCNIPlugin rv w ?tr3") simp
        have cni_np: "cni \<noteq> Panic"
          using detectCNIPlugin_no_panic [of rv w ?tr3] cni by simp
        obtain ing tr5 where ing: "detectIngressController rv w ?tr4 = (ing, tr5)"
          by (cases "detectIngressController rv w ?tr4")
        have ing_np: "ing \<noteq> Panic"
          using detectIngressController_no_panic [of rv w ?tr4] ing by simp
        from d [of ?tr4] ing have p5: "filter isPost tr5 = filter isPost tr" by simp
        obtain sc ac os se where loop: "nodeLoop rv nodes (0, 0, [], []) = (sc, ac, os, se)"
          by (cases "nodeLoop rv nodes (0, 0, [], [])")
        have "snd (collectTelemetryData rv w tr) = tr5"
          using v uid nodes cni cni_np ing ing_np loop
          by (cases cni; cases ing)
             (simp_all add: collectTelemetryData_def getServerVersion_def getNamespace_def
                listNodes_def)
        with p5 show ?thesis by simp
      qed
    qed
  qed
qed

text \<open>
  Claim C6, as stated, fails. With \<^verbatim>\<open>TELEMETRY_ENDPOINT\<close> set to a string that is not a
  URL, collection succeeds and \<^verbatim>\<open>http.NewRequest\<close> fails; \<^verbatim>\<open>sendTelemetryData\<close> returns
  that error at once (src/main.go line 251, src/unnamed/part_001 line 270). The exit code
  is 0 although telemetry is not opted out, the send did not succeed, and the send did not
  fail after exhausting its retries: it made no attempt.
\<close>

theorem exit_zero_without_attempt_counterexample:
  "Getenv badEndpointWorld ''DISABLE_TELEMETRY'' \<noteq> ''true''
   \<and> fst (main Part001 badEndpointWorld) = 0
   \<and> fst (snd (main Part001 badEndpointWorld))
        = SendFailed (Errorf ''failed to create request'' (ApiError ''missing ] in host''))
   \<and> filter isPost (snd (snd (main Part001 badEndpointWorld))) = []
   \<and> fst (main MainGo badEndpointWorld) = 0
   \<and> fst (snd (main MainGo badEndpointWorld))
        = SendFailed (Errorf ''failed to create request'' (ApiError ''missing ] in host''))
   \<and> filter isPost (snd (snd (main MainGo badEndpointWorld))) = []"
  by (simp add: main_badEndpointWorld collect_makes_no_post)
     (simp add: Getenv_def badEndpointWorld_def healthyWorld_def)


text \<open>
  Claim C6, amended. The exit code is 0 exactly when the opt-out variable is
  \<^verbatim>\<open>"true"\<close>, or the send succeeds, or the send returns an error, whichever error it is
  (after the last attempt, or before any attempt when the record cannot be serialised or
  the request cannot be built). The exit code is not 0 (it is 1) exactly when telemetry is
  not opted out and the construction of the configuration or of the client fails, or the
  version query, the namespace query or the node listing fails. Where the run reaches the
  send, its ending is the send's result. This holds in both revisions.
\<close>

theorem exit_codes:
  "(fst (main rv w) = 0 \<longleftrightarrow>
      Getenv w ''DISABLE_TELEMETRY'' = ''true''
      \<or> fst (snd (main rv w)) = SendOk
      \<or> (\<exists>err. fst (snd (main rv w)) = SendFailed err))
   \<and> (fst (main rv w) \<noteq> 0 \<longleftrightarrow>
        Getenv w ''DISABLE_TELEMETRY'' \<noteq> ''true''
        \<and> (InClusterConfig w \<noteq> None \<or> NewForConfig w \<noteq> None \<or> isl (ServerVersion w)
            \<or> isl (NamespacesGet w ''kube-system'') \<or> isl (NodesList w)))
   \<and> (fst (main rv w) = 0 \<or> fst (main rv w) = 1)
   \<and> (\<forall>data tr.
         Getenv w ''DISABLE_TELEMETRY'' \<noteq> ''true'' \<and> InClusterConfig w = None
         \<and> NewForConfig w = None
         \<and> collectTelemetryData rv w [CallInClusterConfig, CallNewForConfig] = (Ok data, tr)
         \<longrightarrow> fst (snd (main rv w)) =
               (case fst (sendTelemetryData rv w data (endpointOf w) tr) of
                  None \<Rightarrow> SendOk | Some err \<Rightarrow> SendFailed err))"
proof -
  have a: "(fst (main rv w) = 0 \<longleftrightarrow>
      Getenv w ''DISABLE_TELEMETRY'' = ''true''
      \<or> fst (snd (main rv w)) = SendOk
      \<or> (\<exists>err. fst (snd (main rv w)) = SendFailed err))
   \<and> (fst (main rv w) \<noteq> 0 \<longleftrightarrow>
        Getenv w ''DISABLE_TELEMETRY'' \<noteq> ''true''
        \<and> (InClusterConfig w \<noteq> None \<or> NewForConfig w \<noteq> None \<or> isl (ServerVersion w)
            \<or> isl (NamespacesGet w ''kube-system'') \<or> isl (NodesList w)))
   \<and> (fst (main rv w) = 0 \<or> fst (main rv w) = 1)"
  proof (cases rule: main_cases [of w rv])
    case optout
    then show ?thesis by simp
  next
    case (config err)
    then show ?thesis by simp
  next
    case (client err)
    then show ?thesis by simp
  next
    case (collect err tr)
    then show ?thesis by simp
  next
    case (send data tr)
    then show ?thesis by (simp split: option.splits)
  qed
  have b: "\<forall>data tr.
         Getenv w ''DISABLE_TELEMETRY'' \<noteq> ''true'' \<and> InClusterConfig w = None
         \<and> NewForConfig w = None
         \<and> collectTelemetryData rv w [CallInClusterConfig, CallNewForConfig] = (Ok data, tr)
         \<longrightarrow> fst (snd (main rv w)) =
               (case fst (sendTelemetryData rv w data (endpointOf w) tr) of
                  None \<Rightarrow> SendOk | Some err \<Rightarrow> SendFailed err)"
    by (simp add: main_send)
  from a b show ?thesis by blast
qed

theorem exit_codes_witness:
  "Getenv healthyWorld ''DISABLE_TELEMETRY'' \<noteq> ''true''
   \<and> InClusterConfig healthyWorld = None \<and> NewForConfig healthyWorld = None
   \<and> collectTelemetryData Part001 healthyWorld [CallInClusterConfig, CallNewForConfig] =
       (Ok healthyData,
        [CallInClusterConfig, CallNewForConfig, CallServerVersion,
         CallNamespacesGet ''kube-system'', CallNodesList, CallDaemonSetsList ''kube-system'',
         CallDeploymentsList ''kube-system''])
   \<and> fst (snd (main Part001 healthyWorld)) = SendOk
   \<and> fst (main Part001 healthyWorld) = 0
   \<and> Getenv noNamespaceWorld ''DISABLE_TELEMETRY'' \<noteq> ''true''
   \<and> isl (NamespacesGet noNamespaceWorld ''kube-system'')
   \<and> fst (main MainGo noNamespaceWorld) = 1
   \<and> Getenv optedOutWorld ''DISABLE_TELEMETRY'' = ''true''
   \<and> fst (main MainGo optedOutWorld) = 0"
proof -
  let ?tr = "[CallInClusterConfig, CallNewForConfig, CallServerVersion,
         CallNamespacesGet ''kube-system'', CallNodesList, CallDaemonSetsList ''kube-system'',
         CallDeploymentsList ''kube-system'']"
  have h: "Getenv healthyWorld ''DISABLE_TELEMETRY'' \<noteq> ''true''"
    "InClusterConfig healthyWorld = None" "NewForConfig healthyWorld = None"
    by (simp_all add: Getenv_def healthyWorld_def)
  note c = collect_healthyWorld_run
  have e: "endpointOf healthyWorld = defaultTelemetryEndpoint"
    by (simp add: endpointOf_def Getenv_def healthyWorld_def)
  have m: "NewRequest healthyWorld defaultTelemetryEndpoint = None"
    "Marshal healthyWorld healthyData = Inr ''{}''"
    "Do healthyWorld = (\<lambda>endpoint body k. Inr 200)"
    by (simp_all add: healthyWorld_def)
  have s: "fst (sendTelemetryData Part001 healthyWorld healthyData defaultTelemetryEndpoint ?tr)
             = None"
    by (simp add: sendLoop_unrolled [OF m(1)] m attemptError_def Let_def)
  from exit_codes [of Part001 healthyWorld] h c e s
  have ok: "fst (snd (main Part001 healthyWorld)) = SendOk"
    by simp
  with exit_codes [of Part001 healthyWorld] have z: "fst (main Part001 healthyWorld) = 0"
    by simp
  have n: "Getenv noNamespaceWorld ''DISABLE_TELEMETRY'' \<noteq> ''true''"
    "isl (NamespacesGet noNamespaceWorld ''kube-system'')"
    by (simp_all add: Getenv_def noNamespaceWorld_def healthyWorld_def)
  from exit_codes [of MainGo noNamespaceWorld] n have one: "fst (main MainGo noNamespaceWorld) = 1"
    by auto
  have o: "Getenv optedOutWorld ''DISABLE_TELEMETRY'' = ''true''"
    by (simp add: Getenv_def optedOutWorld_def healthyWorld_def)
  with exit_codes [of MainGo optedOutWorld] have oz: "fst (main MainGo optedOutWorld) = 0"
    by simp
  from h c ok z n one o oz show ?thesis by simp
qed

text \<open>The sender only adds calls, and it posts once the request can be built.\<close>

lemma send_trace:
  "\<exists>evs. snd (sendTelemetryData rv w data endpoint tr) = tr @ evs"
proof (cases "Marshal w data")
  case (Inl err)
  then show ?thesis by (cases rv) simp_all
next
  case (Inr body)
  show ?thesis
  proof (cases "NewRequest w endpoint")
    case (Some err)
    with Inr show ?thesis by (cases rv) (simp_all add: sendLoop_bad_request)
  next
    case None
    show ?thesis
    proof (cases rv)
      case MainGo
      with Inr None show ?thesis by (simp add: sendMainGo_eq del: sendTelemetryData.simps)
    next
      case Part001
      with send_Part001_policy [OF Inr None, of tr] show ?thesis by blast
    qed
  qed
qed

lemma send_posts:
  assumes "Marshal w data = Inr body" and "NewRequest w endpoint = None"
  shows "Post endpoint body \<in> set (snd (sendTelemetryData rv w data endpoint tr))"
proof (cases rv)
  case MainGo
  with assms show ?thesis by (simp add: sendMainGo_eq del: sendTelemetryData.simps)
next
  case Part001
  from send_Part001_policy [OF assms, of tr] obtain m where m: "1 \<le> m"
    "snd (sendTelemetryData Part001 w data endpoint tr) = tr @ spec_attempts endpoint body m"
    by blast
  then obtain k where "m = Suc k" by (cases m) auto
  with m Part001 show ?thesis by simp
qed

text \<open>
  Claim C9. When the variable \<^verbatim>\<open>DISABLE_TELEMETRY\<close> equals \<^verbatim>\<open>"true"\<close>, the program
  exits with code 0 having made no call at all: no query to the cluster's API and no HTTP
  request. For any other value, and when the variable is unset, the program goes on: it
  builds the client configuration; once configuration and client are built it starts
  collection with the version query; and once the three fatal queries succeed it calls
  the sender on the collected record and the resolved endpoint, which posts to the
  endpoint whenever the request can be built. This holds in both revisions.
\<close>

theorem optout_gate:
  "(Environ w ''DISABLE_TELEMETRY'' = Some ''true'' \<longrightarrow>
      main rv w = (0, OptedOut, [])
      \<and> filter isApiCall (snd (snd (main rv w))) = []
      \<and> filter isPost (snd (snd (main rv w))) = [])
   \<and> (Environ w ''DISABLE_TELEMETRY'' \<noteq> Some ''true'' \<longrightarrow>
        (\<exists>evs. snd (snd (main rv w)) = CallInClusterConfig # evs)
      \<and> (InClusterConfig w = None \<and> NewForConfig w = None \<longrightarrow>
           (\<exists>evs. snd (snd (main rv w)) =
                    [CallInClusterConfig, CallNewForConfig, CallServerVersion] @ evs))
      \<and> (InClusterConfig w = None \<and> NewForConfig w = None \<and> \<not> isl (ServerVersion w)
          \<and> \<not> isl (NamespacesGet w ''kube-system'') \<and> \<not> isl (NodesList w) \<longrightarrow>
           (\<exists>data tr.
              collectTelemetryData rv w [CallInClusterConfig, CallNewForConfig] = (Ok data, tr)
              \<and> snd (snd (main rv w)) = snd (sendTelemetryData rv w data (endpointOf w) tr)
              \<and> fst (snd (main rv w)) =
                  (case fst (sendTelemetryData rv w data (endpointOf w) tr) of
                     None \<Rightarrow> SendOk | Some err \<Rightarrow> SendFailed err)
              \<and> (\<forall>body. Marshal w data = Inr body \<and> NewRequest w (endpointOf w) = None \<longrightarrow>
                    Post (endpointOf w) body \<in> set (snd (snd (main rv w)))))))"
proof (cases rule: main_cases [of w rv])
  case optout
  then show ?thesis by (simp add: Getenv_true)
next
  case (config err)
  then show ?thesis by (simp add: Getenv_true)
next
  case (client err)
  then show ?thesis by (simp add: Getenv_true)
next
  case (collect err tr)
  from collect_trace [of rv w "[CallInClusterConfig, CallNewForConfig]"] collect(5)
  obtain evs where "tr = [CallInClusterConfig, CallNewForConfig] @ CallServerVersion # evs"
    by auto
  with collect show ?thesis by (auto simp: Getenv_true)
next
  case (send data tr)
  from collect_trace [of rv w "[CallInClusterConfig, CallNewForConfig]"] send(7)
  obtain evs where tr: "tr = [CallInClusterConfig, CallNewForConfig] @ CallServerVersion # evs"
    by auto
  from send_trace [of rv w data "endpointOf w" tr]
  obtain evs' where s: "snd (sendTelemetryData rv w data (endpointOf w) tr) = tr @ evs'"
    by blast
  have p: "\<forall>body. Marshal w data = Inr body \<and> NewRequest w (endpointOf w) = None \<longrightarrow>
             Post (endpointOf w) body \<in> set (snd (sendTelemetryData rv w data (endpointOf w) tr))"
    by (simp add: send_posts)
  from send tr s p show ?thesis by (simp add: Getenv_true)
qed

theorem optout_gate_witness:
  "Environ optedOutWorld ''DISABLE_TELEMETRY'' = Some ''true''
   \<and> main Part001 optedOutWorld = (0, OptedOut, [])
   \<and> Environ healthyWorld ''DISABLE_TELEMETRY'' \<noteq> Some ''true''
   \<and> InClusterConfig healthyWorld = None \<and> NewForConfig healthyWorld = None
   \<and> \<not> isl (ServerVersion healthyWorld) \<and> \<not> isl (NamespacesGet healthyWorld ''kube-system'')
   \<and> \<not> isl (NodesList healthyWorld)
   \<and> (\<exists>evs. snd (snd (main Part001 healthyWorld)) =
               [CallInClusterConfig, CallNewForConfig, CallServerVersion] @ evs)
   \<and> Post defaultTelemetryEndpoint ''{}'' \<in> set (snd (snd (main Part001 healthyWorld)))"
proof -
  have o: "Environ optedOutWorld ''DISABLE_TELEMETRY'' = Some ''true''"
    by (simp add: optedOutWorld_def healthyWorld_def)
  have h: "Environ healthyWorld ''DISABLE_TELEMETRY'' \<noteq> Some ''true''"
    "InClusterConfig healthyWorld = None" "NewForConfig healthyWorld = None"
    "\<not> isl (ServerVersion healthyWorld)" "\<not> isl (NamespacesGet healthyWorld ''kube-system'')"
    "\<not> isl (NodesList healthyWorld)"
    by (simp_all add: healthyWorld_def)
  have m: "Marshal healthyWorld = (\<lambda>data. Inr ''{}'')"
    "NewRequest healthyWorld (endpointOf healthyWorld) = None"
    "endpointOf healthyWorld = defaultTelemetryEndpoint"
    by (simp_all add: healthyWorld_def endpointOf_def Getenv_def)
  from optout_gate [of optedOutWorld Part001] o
  have 1: "main Part001 optedOutWorld = (0, OptedOut, [])" by simp
  from optout_gate [of healthyWorld Part001] h
  have 2: "\<exists>evs. snd (snd (main Part001 healthyWorld)) =
               [CallInClusterConfig, CallNewForConfig, CallServerVersion] @ evs"
    by simp
  from optout_gate [of healthyWorld Part001] h m
  have 3: "Post defaultTelemetryEndpoint ''{}'' \<in> set (snd (snd (main Part001 healthyWorld)))"
    by auto
  from o h 1 2 3 show ?thesis by simp
qed

end
